theory Spec2Isabelle
  imports Main "HOL-Library.AList"
begin

section \<open>Values: JSON bodies and Python dictionaries\<close>

text \<open>
  The scraper handles the decoded JSON body of an HTTP response. A JSON object is a
  Python dict; it is kept as an association list in insertion order, read with
  \<open>map_of\<close> (first binding of a key). Numbers are integers here.
\<close>

datatype json =
    JNull
  | JBool bool
  | JNum int
  | JStr string
  | JArr "json list"
  | JObj "(string \<times> json) list"

type_synonym dict = "(string \<times> json) list"

text \<open>A flattened row is the dict built by \<open>transform_data\<close>; a DataFrame is its list of rows.\<close>

type_synonym row = "(string \<times> json) list"

datatype error = AttributeError | TypeError | KeyError | ValueError

text \<open>Python truth value: \<open>None\<close>, \<open>False\<close>, \<open>0\<close>, \<open>''\<close>, \<open>[]\<close> and \<open>{}\<close> are false.\<close>

fun truthy :: "json \<Rightarrow> bool" where
  "truthy JNull = False"
| "truthy (JBool b) = b"
| "truthy (JNum n) = (n \<noteq> 0)"
| "truthy (JStr s) = (s \<noteq> [])"
| "truthy (JArr xs) = (xs \<noteq> [])"
| "truthy (JObj kvs) = (kvs \<noteq> [])"

text \<open>\<open>d.get(k)\<close> and \<open>d.get(k, default)\<close> on a dict.\<close>

definition dict_get :: "dict \<Rightarrow> string \<Rightarrow> json" where
  "dict_get d k = (case map_of d k of None \<Rightarrow> JNull | Some v \<Rightarrow> v)"

definition dict_get_default :: "dict \<Rightarrow> string \<Rightarrow> json \<Rightarrow> json" where
  "dict_get_default d k dflt = (case map_of d k of None \<Rightarrow> dflt | Some v \<Rightarrow> v)"

text \<open>\<open>x.get(k)\<close> on any value: only a dict has the method.\<close>

fun attr_get :: "json \<Rightarrow> string \<Rightarrow> error + json" where
  "attr_get (JObj d) k = Inr (dict_get d k)"
| "attr_get _ k = Inl AttributeError"

text \<open>
  Iterating a value, as \<open>itertools.product\<close> does with each argument: a list gives its
  elements, a string its characters, a dict its keys; anything else is not iterable.
\<close>

fun py_iter :: "json \<Rightarrow> error + json list" where
  "py_iter (JArr xs) = Inr xs"
| "py_iter (JStr s) = Inr (map (\<lambda>c. JStr [c]) s)"
| "py_iter (JObj kvs) = Inr (map (\<lambda>kv. JStr (fst kv)) kvs)"
| "py_iter _ = Inl TypeError"

text \<open>Sequencing of computations that may raise.\<close>

definition ebind :: "error + 'a \<Rightarrow> ('a \<Rightarrow> error + 'b) \<Rightarrow> error + 'b" where
  "ebind m f = (case m of Inl e \<Rightarrow> Inl e | Inr x \<Rightarrow> f x)"

fun mapM :: "('a \<Rightarrow> error + 'b) \<Rightarrow> 'a list \<Rightarrow> error + 'b list" where
  "mapM f [] = Inr []"
| "mapM f (x # xs) = ebind (f x) (\<lambda>y. ebind (mapM f xs) (\<lambda>ys. Inr (y # ys)))"

section \<open>Row Flattener: \<open>BDNSScraper.transform_data\<close>\<close>

text \<open>The keys copied one by one from the record into \<open>base_data\<close>, in source order.\<close>

definition base_fields :: "string list" where
  "base_fields =
    [''id'', ''codigoBDNS'', ''fechaRecepcion'', ''sedeElectronica'', ''tipoConvocatoria'',
     ''presupuestoTotal'', ''mrr'', ''descripcion'', ''descripcionLeng'',
     ''descripcionFinalidad'', ''descripcionBasesReguladoras'', ''urlBasesReguladoras'',
     ''sePublicaDiarioOficial'', ''abierto'', ''fechaInicioSolicitud'',
     ''fechaFinSolicitud'', ''textInicio'', ''textFin'']"

text \<open>
  The year of \<open>fechaRecepcion\<close>. \<open>datetime.strptime(_, '%Y-%m-%d').year\<close> is library
  code: its result on a string is the parameter \<open>strptime_year\<close> (\<open>None\<close> where it
  raises). A false value skips the parse; on a true value that is not a string
  \<open>strptime\<close> raises, and the bare \<open>except\<close> turns every exception into \<open>None\<close>.
\<close>

definition year_of :: "(string \<Rightarrow> int option) \<Rightarrow> json \<Rightarrow> json" where
  "year_of strptime_year fecha =
     (if truthy fecha then
        (case fecha of
           JStr s \<Rightarrow> (case strptime_year s of Some y \<Rightarrow> JNum y | None \<Rightarrow> JNull)
         | _ \<Rightarrow> JNull)
      else JNull)"

text \<open>\<open>data.get(k, [{}])\<close> followed by \<open>if not xs: xs = [{}]\<close>.\<close>

definition nested_array :: "dict \<Rightarrow> string \<Rightarrow> json" where
  "nested_array d k =
     (let xs = dict_get_default d k (JArr [JObj []])
      in if \<not> truthy xs then JArr [JObj []] else xs)"

text \<open>\<open>itertools.product\<close> of four lists: the last position varies fastest.\<close>

definition product4 :: "'a list \<Rightarrow> 'a list \<Rightarrow> 'a list \<Rightarrow> 'a list \<Rightarrow> ('a \<times> 'a \<times> 'a \<times> 'a) list" where
  "product4 as bs cs ds = [(a, b, c, d). a \<leftarrow> as, b \<leftarrow> bs, c \<leftarrow> cs, d \<leftarrow> ds]"

text \<open>The body of the loop over the product: a copy of \<open>base_data\<close> with five more keys.\<close>

fun make_row :: "row \<Rightarrow> json \<times> json \<times> json \<times> json \<Rightarrow> error + row" where
  "make_row base_data (inst, benef, sector, region) =
     ebind (attr_get inst ''descripcion'') (\<lambda>i.
     ebind (attr_get benef ''descripcion'') (\<lambda>b.
     ebind (attr_get sector ''descripcion'') (\<lambda>sd.
     ebind (attr_get sector ''codigo'') (\<lambda>sc.
     ebind (attr_get region ''descripcion'') (\<lambda>r.
       Inr (base_data @
            [(''instrumento_descripcion'', i),
             (''tipoBeneficiario_descripcion'', b),
             (''sector_descripcion'', sd),
             (''sector_codigo'', sc),
             (''region_descripcion'', r)]))))))"

text \<open>
  \<open>transform_data\<close>. Every attribute access of the source on a value that may not be a
  dict is a branch that raises: \<open>data.get\<close>, \<open>organo.get\<close>, and the \<open>.get\<close> on the
  elements of the four lists.
\<close>

definition transform_data :: "(string \<Rightarrow> int option) \<Rightarrow> json \<Rightarrow> error + row list" where
  "transform_data strptime_year data =
     (case data of
        JObj d \<Rightarrow>
          (let organo = dict_get_default d ''organo'' (JObj []) in
           ebind (attr_get organo ''nivel1'') (\<lambda>n1.
           ebind (attr_get organo ''nivel2'') (\<lambda>n2.
           ebind (attr_get organo ''nivel3'') (\<lambda>n3.
             (let base_data =
                    map (\<lambda>k. (k, dict_get d k)) base_fields @
                    [(''organo_nivel1'', n1), (''organo_nivel2'', n2), (''organo_nivel3'', n3),
                     (''year'', year_of strptime_year (dict_get d ''fechaRecepcion''))]
              in
              ebind (py_iter (nested_array d ''instrumentos'')) (\<lambda>instrumentos.
              ebind (py_iter (nested_array d ''tiposBeneficiarios'')) (\<lambda>tipos_beneficiarios.
              ebind (py_iter (nested_array d ''sectores'')) (\<lambda>sectores.
              ebind (py_iter (nested_array d ''regiones'')) (\<lambda>regiones.
                mapM (make_row base_data)
                  (product4 instrumentos tipos_beneficiarios sectores regiones))))))))))
      | _ \<Rightarrow> Inl AttributeError)"

section \<open>The scraper object and its surroundings\<close>

text \<open>
  What the scraper prints, as far as the fetcher and the store are concerned
  (the banners of \<open>run\<close> are left out).
\<close>

datatype message =
    Msg_404 int nat
  | Msg_fetched int
  | Msg_status int int
  | Msg_request_error int
  | Msg_saved nat int
  | Msg_save_error int
  | Msg_interrupted

text \<open>
  The fields of \<open>BDNSScraper\<close>, together with the two parts of the outside world it
  changes: the Parquet files of \<open>DATA_DIR\<close> (\<open>bdns_<year>.parquet\<close>, by year) and the
  standard output. \<open>dataframes_by_year\<close> is a dict, kept in insertion order; a
  DataFrame is the list of its rows, and writing a file and reading it back is taken
  to return the same rows.
\<close>

record scraper =
  start_bdns :: int
  current_bdns :: int
  consecutive_404s :: nat
  dataframes_by_year :: "(int \<times> row list) list"
  total_records :: nat
  total_requests :: nat
  parquet_files :: "(int \<times> row list) list"
  stdout :: "message list"

definition START_BDNS :: int where
  "START_BDNS = 747573"

definition MAX_CONSECUTIVE_404 :: nat where
  "MAX_CONSECUTIVE_404 = 10"

text \<open>\<open>__init__\<close>, in a data directory that holds \<open>files\<close>.\<close>

definition init :: "int \<Rightarrow> (int \<times> row list) list \<Rightarrow> scraper" where
  "init start files =
     \<lparr>start_bdns = start, current_bdns = start, consecutive_404s = 0,
      dataframes_by_year = [], total_records = 0, total_requests = 0,
      parquet_files = files, stdout = []\<rparr>"

section \<open>Record Fetcher: \<open>BDNSScraper.fetch_convocatoria\<close>\<close>

text \<open>
  What \<open>requests.get\<close> does: it returns a response with a status code and a body
  (decoded by \<open>response.json()\<close>), or raises a \<open>RequestException\<close>. \<open>Undecodable\<close> is a
  response with status 200 whose body is not JSON: \<open>response.json()\<close> then raises
  \<open>requests.exceptions.JSONDecodeError\<close>, a \<open>RequestException\<close>, after the counter has been
  reset, and the \<open>except\<close> clause of \<open>fetch_convocatoria\<close> catches it. The body of a response
  with another status is not decoded.
\<close>

datatype reply = Response int json | Undecodable | RequestException

text \<open>The result is the data, or \<open>None\<close>; the counters and the output change.\<close>

definition fetch_convocatoria :: "reply \<Rightarrow> int \<Rightarrow> scraper \<Rightarrow> json option \<times> scraper" where
  "fetch_convocatoria rep bdns_num s =
     (case rep of
        RequestException \<Rightarrow>
          (None, s\<lparr>stdout := stdout s @ [Msg_request_error bdns_num]\<rparr>)
      | Undecodable \<Rightarrow>
          (None, s\<lparr>total_requests := total_requests s + 1, consecutive_404s := 0,
                   stdout := stdout s @ [Msg_request_error bdns_num]\<rparr>)
      | Response status_code body \<Rightarrow>
          (let s1 = s\<lparr>total_requests := total_requests s + 1\<rparr> in
           if status_code = 404 then
             (None, s1\<lparr>consecutive_404s := consecutive_404s s + 1,
                       stdout := stdout s @ [Msg_404 bdns_num (consecutive_404s s + 1)]\<rparr>)
           else if status_code = 200 then
             (Some body, s1\<lparr>consecutive_404s := 0,
                            stdout := stdout s @ [Msg_fetched bdns_num]\<rparr>)
           else
             (None, s1\<lparr>stdout := stdout s @ [Msg_status bdns_num status_code]\<rparr>)))"

section \<open>Year-Partitioned Buffer: \<open>BDNSScraper.add_rows\<close>\<close>

text \<open>
  \<open>row.get('year')\<close> followed by \<open>if year:\<close>. The rows come from \<open>transform_data\<close>,
  where \<open>year\<close> is an integer or \<open>None\<close>.
\<close>

definition row_year :: "row \<Rightarrow> int option" where
  "row_year r = (case dict_get r ''year'' of JNum y \<Rightarrow> (if y \<noteq> 0 then Some y else None) | _ \<Rightarrow> None)"

text \<open>The DataFrame of a year in a dict of DataFrames, empty when the key is absent.\<close>

definition frame_of :: "(int \<times> row list) list \<Rightarrow> int \<Rightarrow> row list" where
  "frame_of frames year = (case map_of frames year of None \<Rightarrow> [] | Some df \<Rightarrow> df)"

text \<open>The first loop of \<open>add_rows\<close>: \<open>rows_by_year\<close>, years in order of first appearance.\<close>

fun group_by_year :: "row list \<Rightarrow> (int \<times> row list) list \<Rightarrow> (int \<times> row list) list" where
  "group_by_year [] rows_by_year = rows_by_year"
| "group_by_year (r # rs) rows_by_year =
     (case row_year r of
        None \<Rightarrow> group_by_year rs rows_by_year
      | Some year \<Rightarrow>
          group_by_year rs (AList.update year (frame_of rows_by_year year @ [r]) rows_by_year))"

text \<open>The body of the second loop: \<open>pd.concat\<close> of the year's DataFrame and the new rows.\<close>

definition add_year_rows :: "int \<times> row list \<Rightarrow> scraper \<Rightarrow> scraper" where
  "add_year_rows yr s =
     s\<lparr>dataframes_by_year :=
         AList.update (fst yr) (frame_of (dataframes_by_year s) (fst yr) @ snd yr)
           (dataframes_by_year s),
       total_records := total_records s + length (snd yr)\<rparr>"

definition add_rows :: "row list \<Rightarrow> scraper \<Rightarrow> scraper" where
  "add_rows rows s = (if rows = [] then s else fold add_year_rows (group_by_year rows []) s)"

section \<open>Merge-Persist Store: \<open>BDNSScraper.save_to_parquet\<close>\<close>

definition codigo :: "row \<Rightarrow> json" where
  "codigo r = dict_get r ''codigoBDNS''"

text \<open>
  \<open>drop_duplicates(subset=['codigoBDNS'], keep='last')\<close>: a row stays when no later
  row has its identifier; the order of the rows that stay is kept.
\<close>

fun drop_duplicates_last :: "row list \<Rightarrow> row list" where
  "drop_duplicates_last [] = []"
| "drop_duplicates_last (r # rs) =
     (if codigo r \<in> set (map codigo rs) then drop_duplicates_last rs
      else r # drop_duplicates_last rs)"

text \<open>
  Reading or writing the file of a year may raise. \<open>to_parquet\<close> writes the file in place,
  so a write that fails may leave any file behind, or none. The faults of a call say,
  for each year, whether its file fails (\<open>None\<close>: it does not) and what is then left of
  the file (\<open>Some None\<close>: no file; \<open>Some (Some rows)\<close>: a file that holds \<open>rows\<close>, which may
  be the rows it held before).
\<close>

type_synonym faults = "int \<Rightarrow> row list option option"

text \<open>
  \<open>save_to_parquet\<close>. The \<open>except\<close> clause prints the error; the assignment that clears
  the DataFrame is inside the \<open>try\<close>, after the write.
\<close>

definition save_to_parquet :: "faults \<Rightarrow> int \<Rightarrow> scraper \<Rightarrow> scraper" where
  "save_to_parquet faults year s =
     (case map_of (dataframes_by_year s) year of
        None \<Rightarrow> s
      | Some df \<Rightarrow>
          if df = [] then s
          else
            (case faults year of
               Some left_behind \<Rightarrow>
                 s\<lparr>parquet_files :=
                     (case left_behind of
                        None \<Rightarrow> AList.delete year (parquet_files s)
                      | Some rows \<Rightarrow> AList.update year rows (parquet_files s)),
                   stdout := stdout s @ [Msg_save_error year]\<rparr>
             | None \<Rightarrow>
                 s\<lparr>parquet_files :=
                     AList.update year
                       (case map_of (parquet_files s) year of
                          Some existing_df \<Rightarrow> drop_duplicates_last (existing_df @ df)
                        | None \<Rightarrow> df)
                       (parquet_files s),
                   stdout := stdout s @ [Msg_saved (length df) year],
                   dataframes_by_year := AList.update year [] (dataframes_by_year s)\<rparr>))"

text \<open>
  The loop that \<open>run\<close> has twice, in the periodic save and in \<open>finally\<close>:
  \<open>for year in keys: if not empty: save_to_parquet(year)\<close>.
\<close>

definition save_if_not_empty :: "faults \<Rightarrow> int \<Rightarrow> scraper \<Rightarrow> scraper" where
  "save_if_not_empty faults year s =
     (if frame_of (dataframes_by_year s) year \<noteq> [] then save_to_parquet faults year s else s)"

definition save_all :: "faults \<Rightarrow> scraper \<Rightarrow> scraper" where
  "save_all faults s = fold (save_if_not_empty faults) (map fst (dataframes_by_year s)) s"

text \<open>
  The Store's \<open>flush(year, rows)\<close> of the specification: \<open>save_to_parquet\<close> called when
  the year's DataFrame holds exactly \<open>rows\<close>, with no read or write error.
\<close>

definition flush :: "int \<Rightarrow> row list \<Rightarrow> scraper \<Rightarrow> scraper" where
  "flush year rows s =
     save_to_parquet Map.empty year (s\<lparr>dataframes_by_year := AList.update year rows (dataframes_by_year s)\<rparr>)"

section \<open>Enumeration Driver: \<open>BDNSScraper.run\<close>\<close>

text \<open>
  One pass through the body of the \<open>while\<close> loop, for the reply the request gets and
  the faults that the files meet during this pass. The result is the state and the
  exception that leaves the loop, if any (\<open>USE_DELAY\<close> is \<open>False\<close>: no sleep).
\<close>

definition iteration :: "(string \<Rightarrow> int option) \<Rightarrow> faults \<Rightarrow> reply \<Rightarrow> scraper \<Rightarrow> scraper \<times> error option" where
  "iteration strptime_year faults rep s =
     (case fetch_convocatoria rep (current_bdns s) s of
        (None, s1) \<Rightarrow> (s1\<lparr>current_bdns := current_bdns s1 + 1\<rparr>, None)
      | (Some data, s1) \<Rightarrow>
          if truthy data then
            (case transform_data strptime_year data of
               Inl e \<Rightarrow> (s1, Some e)
             | Inr rows \<Rightarrow>
                 (let s2 = add_rows rows s1;
                      s3 = (if total_records s2 > 0 \<and> total_records s2 mod 100 = 0
                            then save_all faults s2 else s2)
                  in (s3\<lparr>current_bdns := current_bdns s3 + 1\<rparr>, None)))
          else (s1\<lparr>current_bdns := current_bdns s1 + 1\<rparr>, None))"

text \<open>
  What happens in one turn of the loop: a probe that runs to its end, or a
  \<open>KeyboardInterrupt\<close>, raised while the request is waiting (nothing has changed) or
  after \<open>add_rows\<close> has returned (the rows of this reply are buffered, the periodic
  save has not been reached).
\<close>

datatype event =
    Probe reply faults
  | Interrupt_in_fetch
  | Interrupt_after_add reply

datatype reason = MaxConsecutiveFailures | UserCancelled | Crashed error

datatype status = Running | Stopped reason

definition interrupted_after_add :: "(string \<Rightarrow> int option) \<Rightarrow> reply \<Rightarrow> scraper \<Rightarrow> scraper \<times> reason" where
  "interrupted_after_add strptime_year rep s =
     (case fetch_convocatoria rep (current_bdns s) s of
        (None, s1) \<Rightarrow> (s1, UserCancelled)
      | (Some data, s1) \<Rightarrow>
          if truthy data then
            (case transform_data strptime_year data of
               Inl e \<Rightarrow> (s1, Crashed e)
             | Inr rows \<Rightarrow> (add_rows rows s1, UserCancelled))
          else (s1, UserCancelled))"

text \<open>
  The \<open>while\<close> loop, with threshold \<open>max_404\<close>, over the events of its turns. The loop
  has no bound of its own: when the events run out while the condition still holds,
  the scraper is still \<open>Running\<close>.
\<close>

fun loop :: "(string \<Rightarrow> int option) \<Rightarrow> nat \<Rightarrow> event list \<Rightarrow> scraper \<Rightarrow> scraper \<times> status" where
  "loop strptime_year max_404 [] s =
     (if consecutive_404s s < max_404 then (s, Running)
      else (s, Stopped MaxConsecutiveFailures))"
| "loop strptime_year max_404 (ev # evs) s =
     (if consecutive_404s s < max_404 then
        (case ev of
           Probe rep faults \<Rightarrow>
             (case iteration strptime_year faults rep s of
                (s', None) \<Rightarrow> loop strptime_year max_404 evs s'
              | (s', Some e) \<Rightarrow> (s', Stopped (Crashed e)))
         | Interrupt_in_fetch \<Rightarrow> (s, Stopped UserCancelled)
         | Interrupt_after_add rep \<Rightarrow>
             (case interrupted_after_add strptime_year rep s of
                (s', r) \<Rightarrow> (s', Stopped r)))
      else (s, Stopped MaxConsecutiveFailures))"

text \<open>The \<open>except KeyboardInterrupt\<close> clause and the \<open>finally\<close> block.\<close>

definition finally_block :: "faults \<Rightarrow> reason \<Rightarrow> scraper \<Rightarrow> scraper" where
  "finally_block faults r s =
     save_all faults
       (if r = UserCancelled then s\<lparr>stdout := stdout s @ [Msg_interrupted]\<rparr> else s)"

text \<open>\<open>run\<close>: the loop, then the \<open>finally\<close> block once the loop is left.\<close>

definition run_with :: "(string \<Rightarrow> int option) \<Rightarrow> nat \<Rightarrow> event list \<Rightarrow> faults \<Rightarrow> scraper \<Rightarrow> scraper \<times> status" where
  "run_with strptime_year max_404 evs final_faults s =
     (case loop strptime_year max_404 evs s of
        (s', Running) \<Rightarrow> (s', Running)
      | (s', Stopped r) \<Rightarrow> (finally_block final_faults r s', Stopped r))"

definition run :: "(string \<Rightarrow> int option) \<Rightarrow> event list \<Rightarrow> faults \<Rightarrow> scraper \<Rightarrow> scraper \<times> status" where
  "run strptime_year evs final_faults s = run_with strptime_year MAX_CONSECUTIVE_404 evs final_faults s"

section \<open>Resume point: \<open>find_last_bdns\<close>\<close>

text \<open>
  \<open>df['codigoBDNS'].astype(int).tolist()\<close> for one file. The conversion of one value
  is library code, the parameter \<open>astype_int\<close> (\<open>None\<close> where it raises); a row
  without the column has no value to convert.
\<close>

definition codes_of_file :: "(json \<Rightarrow> int option) \<Rightarrow> row list \<Rightarrow> error + int list" where
  "codes_of_file astype_int df =
     mapM (\<lambda>r. case map_of r ''codigoBDNS'' of
                 None \<Rightarrow> Inl KeyError
               | Some v \<Rightarrow> (case astype_int v of None \<Rightarrow> Inl ValueError | Some n \<Rightarrow> Inr n)) df"

text \<open>
  \<open>find_last_bdns\<close> over the files that \<open>glob\<close> finds. \<open>max\<close> of an empty list raises
  \<open>ValueError\<close>.
\<close>

definition find_last_bdns :: "(json \<Rightarrow> int option) \<Rightarrow> row list list \<Rightarrow> error + int" where
  "find_last_bdns astype_int files =
     (if files = [] then Inr 600000
      else
        ebind (mapM (codes_of_file astype_int) files) (\<lambda>codes.
          (let all_bdns = concat codes in
           if all_bdns = [] then Inl ValueError
           else Inr (Max (set all_bdns) + 1))))"

text \<open>The script of \<open>resume_scraper\<close>: the scraper is created at the resume point.\<close>

definition resume :: "(json \<Rightarrow> int option) \<Rightarrow> (int \<times> row list) list \<Rightarrow> error + scraper" where
  "resume astype_int files =
     ebind (find_last_bdns astype_int (map snd files)) (\<lambda>resume_from. Inr (init resume_from files))"

section \<open>Shape of a record\<close>

text \<open>
  The record of the upstream interface: \<open>organo\<close> is an object when present, and
  each of the four multi-valued fields is absent, false (\<open>null\<close>, an empty list) or a
  list of objects.
\<close>

fun is_obj :: "json \<Rightarrow> bool" where
  "is_obj (JObj d) = True"
| "is_obj _ = False"

definition dimension_ok :: "json \<Rightarrow> bool" where
  "dimension_ok v = (\<not> truthy v \<or> (case v of JArr xs \<Rightarrow> list_all is_obj xs | _ \<Rightarrow> False))"

definition dimension_len :: "json \<Rightarrow> nat" where
  "dimension_len v = (case v of JArr xs \<Rightarrow> length xs | _ \<Rightarrow> 0)"

definition well_formed_record :: "dict \<Rightarrow> bool" where
  "well_formed_record d =
     (is_obj (dict_get_default d ''organo'' (JObj [])) \<and>
      dimension_ok (dict_get d ''instrumentos'') \<and>
      dimension_ok (dict_get d ''tiposBeneficiarios'') \<and>
      dimension_ok (dict_get d ''sectores'') \<and>
      dimension_ok (dict_get d ''regiones''))"

text \<open>The five keys that \<open>make_row\<close> adds, for a tuple of objects.\<close>

definition dimension_items :: "json \<times> json \<times> json \<times> json \<Rightarrow> row" where
  "dimension_items t =
     (case t of
        (JObj i, JObj b, JObj s, JObj r) \<Rightarrow>
          [(''instrumento_descripcion'', dict_get i ''descripcion''),
           (''tipoBeneficiario_descripcion'', dict_get b ''descripcion''),
           (''sector_descripcion'', dict_get s ''descripcion''),
           (''sector_codigo'', dict_get s ''codigo''),
           (''region_descripcion'', dict_get r ''descripcion'')]
      | _ \<Rightarrow> [])"

section \<open>Sample inputs\<close>

text \<open>
  A date parser for the samples: the year of a string \<open>dddd-dd-dd\<close> with a month
  from 01 to 12 and a day from 01 to 31, and \<open>None\<close> on any other string. The theorems
  below hold for every parser.
\<close>

definition digit :: "char \<Rightarrow> nat option" where
  "digit c = (let n = (of_char c :: nat) in if 48 \<le> n \<and> n \<le> 57 then Some (n - 48) else None)"

fun number :: "string \<Rightarrow> nat option" where
  "number [] = Some 0"
| "number (c # cs) =
     (case (digit c, number cs) of
        (Some n, Some m) \<Rightarrow> Some (n * 10 ^ length cs + m)
      | _ \<Rightarrow> None)"

definition sample_strptime_year :: "string \<Rightarrow> int option" where
  "sample_strptime_year s =
     (if length s = 10 \<and> s ! 4 = CHR ''-'' \<and> s ! 7 = CHR ''-'' then
        (case (number (take 4 s), number (take 2 (drop 5 s)), number (drop 8 s)) of
           (Some y, Some m, Some d) \<Rightarrow>
             (if 1 \<le> y \<and> 1 \<le> m \<and> m \<le> 12 \<and> 1 \<le> d \<and> d \<le> 31 then Some (int y) else None)
         | _ \<Rightarrow> None)
      else None)"

text \<open>The record of the end-to-end scenario of the specification (two instruments).\<close>

definition sample_fields :: dict where
  "sample_fields =
     [(''codigoBDNS'', JNum 865179),
      (''fechaRecepcion'', JStr ''2024-03-15''),
      (''instrumentos'', JArr [JObj [(''descripcion'', JStr ''Subvencion'')],
                               JObj [(''descripcion'', JStr ''Prestamo'')]]),
      (''sectores'', JArr []),
      (''regiones'', JArr [JObj [(''descripcion'', JStr ''Madrid'')]]),
      (''tiposBeneficiarios'', JArr [JObj [(''descripcion'', JStr ''PYME'')]])]"

definition sample_record :: json where
  "sample_record = JObj sample_fields"

text \<open>Rows of one announcement (identifier 7) and of another (identifier 5), year 2024.\<close>

definition sample_row_old :: row where
  "sample_row_old =
     [(''codigoBDNS'', JNum 7), (''year'', JNum 2024), (''instrumento_descripcion'', JStr ''Aval'')]"

definition sample_row_a :: row where
  "sample_row_a =
     [(''codigoBDNS'', JNum 7), (''year'', JNum 2024), (''instrumento_descripcion'', JStr ''Subvencion'')]"

definition sample_row_b :: row where
  "sample_row_b =
     [(''codigoBDNS'', JNum 7), (''year'', JNum 2024), (''instrumento_descripcion'', JStr ''Prestamo'')]"

definition sample_row_other :: row where
  "sample_row_other =
     [(''codigoBDNS'', JNum 5), (''year'', JNum 2024), (''instrumento_descripcion'', JStr ''Subvencion'')]"

text \<open>
  A scraper whose file for 2024 holds two rows and whose DataFrame for 2024 holds the
  two rows of announcement 7.
\<close>

definition sample_merge_state :: scraper where
  "sample_merge_state =
     (init 8 [(2024, [sample_row_other, sample_row_old])])
       \<lparr>dataframes_by_year := [(2024, [sample_row_a, sample_row_b])], total_records := 2\<rparr>"

text \<open>The rows of the sample record.\<close>

definition sample_rows :: "row list" where
  "sample_rows =
     (case transform_data sample_strptime_year sample_record of Inr rows \<Rightarrow> rows | Inl e \<Rightarrow> [])"

text \<open>
  The identifier that \<open>astype(int)\<close> reads from a row, if the row has the column and
  the value converts.
\<close>

definition row_code :: "(json \<Rightarrow> int option) \<Rightarrow> row \<Rightarrow> int option" where
  "row_code astype_int r =
     (case map_of r ''codigoBDNS'' of None \<Rightarrow> None | Some v \<Rightarrow> astype_int v)"

text \<open>
  A conversion for the samples: an integer is itself, a string of decimal digits is
  its number, anything else does not convert.
\<close>

definition sample_astype_int :: "json \<Rightarrow> int option" where
  "sample_astype_int v =
     (case v of
        JNum n \<Rightarrow> Some n
      | JStr s \<Rightarrow> (if s = [] then None else map_option int (number s))
      | _ \<Rightarrow> None)"

definition code_row :: "int \<Rightarrow> row" where
  "code_row n = [(''codigoBDNS'', JNum n)]"

section \<open>Notions used to state the properties\<close>

text \<open>What a call of \<open>save_to_parquet\<close> that does not fail leaves in the year's file.\<close>

definition merged :: "row list option \<Rightarrow> row list \<Rightarrow> row list" where
  "merged existing df =
     (case existing of Some existing_df \<Rightarrow> drop_duplicates_last (existing_df @ df) | None \<Rightarrow> df)"

text \<open>
  The calls of \<open>save_to_parquet\<close> that reached the \<open>try\<close> block for a year, as the
  output shows them: each prints one line, \<open>[SAVED]\<close> or \<open>[ERROR]\<close>.
\<close>

fun is_flush_of :: "int \<Rightarrow> message \<Rightarrow> bool" where
  "is_flush_of year (Msg_saved n y) = (y = year)"
| "is_flush_of year (Msg_save_error y) = (y = year)"
| "is_flush_of year _ = False"

definition flushes :: "int \<Rightarrow> message list \<Rightarrow> nat" where
  "flushes year out = length (filter (is_flush_of year) out)"

text \<open>
  The outcome of a fetch, in the words of the specification: \<open>Found\<close> is status 200
  with a body that decodes, \<open>NotFound\<close> is status 404, anything else is a transient
  error: another status, a request that fails, a body that does not decode.
\<close>

fun is_found :: "reply \<Rightarrow> bool" where
  "is_found (Response status_code body) = (status_code = 200)"
| "is_found Undecodable = False"
| "is_found RequestException = False"

fun is_404 :: "reply \<Rightarrow> bool" where
  "is_404 (Response status_code body) = (status_code = 404)"
| "is_404 RequestException = False"
| "is_404 Undecodable = False"

text \<open>The replies with status 200, whether the body can be decoded or not.\<close>

fun is_200 :: "reply \<Rightarrow> bool" where
  "is_200 (Response status_code body) = (status_code = 200)"
| "is_200 Undecodable = True"
| "is_200 RequestException = False"

text \<open>
  The number of replies 404 since the last reply with status 200 (since the start
  when there is none); the other replies in between are not counted and do not end
  the run.
\<close>

definition trailing_404s :: "reply list \<Rightarrow> nat" where
  "trailing_404s rs = length (filter is_404 (takeWhile (\<lambda>r. \<not> is_200 r) (rev rs)))"

text \<open>The counter after one reply and after a list of replies, from a given value.\<close>

definition next_count :: "nat \<Rightarrow> reply \<Rightarrow> nat" where
  "next_count c r = (if is_404 r then c + 1 else if is_200 r then 0 else c)"

definition counter_after :: "nat \<Rightarrow> reply list \<Rightarrow> nat" where
  "counter_after c rs = foldl next_count c rs"

text \<open>The events of a run in which every turn is a probe that runs to its end.\<close>

definition probes :: "(reply \<times> faults) list \<Rightarrow> event list" where
  "probes pfs = map (\<lambda>pf. Probe (fst pf) (snd pf)) pfs"

text \<open>
  Three runs of probes, none of which meets a file error. In the first, every reply
  is a transient error: five requests fail and six return status 500. In the
  second, nine replies 404 are followed by a failed request and by three more
  replies 404. In the third, nine replies 404 are followed by a reply 200 whose
  body does not decode and by nine more replies 404.
\<close>

definition sample_transient_probes :: "(reply \<times> faults) list" where
  "sample_transient_probes =
     replicate 5 (RequestException, Map.empty) @ replicate 6 (Response 500 JNull, Map.empty)"

definition sample_404_probes :: "(reply \<times> faults) list" where
  "sample_404_probes =
     replicate 9 (Response 404 JNull, Map.empty) @ [(RequestException, Map.empty)] @
     replicate 3 (Response 404 JNull, Map.empty)"

definition sample_undecodable_probes :: "(reply \<times> faults) list" where
  "sample_undecodable_probes =
     replicate 9 (Response 404 JNull, Map.empty) @ [(Undecodable, Map.empty)] @
     replicate 9 (Response 404 JNull, Map.empty)"

text \<open>
  A record with three instruments, three kinds of beneficiary, three sectors and four
  regions: 108 combinations.
\<close>

definition described :: "string \<Rightarrow> json" where
  "described s = JObj [(''descripcion'', JStr s)]"

definition sample_big_fields :: dict where
  "sample_big_fields =
     [(''codigoBDNS'', JNum 865179),
      (''fechaRecepcion'', JStr ''2024-03-15''),
      (''instrumentos'', JArr (map described [''Subvencion'', ''Prestamo'', ''Aval''])),
      (''tiposBeneficiarios'', JArr (map described [''PYME'', ''Gran empresa'', ''Autonomo''])),
      (''sectores'', JArr (map described [''Industria'', ''Comercio'', ''Turismo''])),
      (''regiones'', JArr (map described [''Madrid'', ''Galicia'', ''Aragon'', ''Murcia'']))]"

definition sample_big_record :: json where
  "sample_big_record = JObj sample_big_fields"

definition sample_big_rows :: "row list" where
  "sample_big_rows =
     (case transform_data sample_strptime_year sample_big_record of Inr rows \<Rightarrow> rows | Inl e \<Rightarrow> [])"

text \<open>
  A scraper with rows buffered for two years, 2024 first: the two rows of
  announcement 7, and one row of an announcement of 2023. The file of 2024 holds
  one row of announcement 5; there is no file for 2023.
\<close>

definition sample_row_2023 :: row where
  "sample_row_2023 =
     [(''codigoBDNS'', JNum 3), (''year'', JNum 2023), (''instrumento_descripcion'', JStr ''Aval'')]"

definition sample_two_year_state :: scraper where
  "sample_two_year_state =
     (init 8 [(2024, [sample_row_other])])
       \<lparr>dataframes_by_year := [(2024, [sample_row_a, sample_row_b]), (2023, [sample_row_2023])],
        total_records := 3\<rparr>"



text \<open>
  A file holds the rows of a DataFrame, up to the deduplication of the merge, when it
  holds the last row of every identifier of the DataFrame.
\<close>

definition persisted :: "row list \<Rightarrow> row list option \<Rightarrow> bool" where
  "persisted df file =
     (case file of
        None \<Rightarrow> False
      | Some stored \<Rightarrow>
          list_all (\<lambda>r. last (filter (\<lambda>r'. codigo r' = codigo r) df) \<in> set stored) df)"

text \<open>
  A record with five instruments, five kinds of beneficiary and four sectors: 100
  combinations.
\<close>

definition sample_hundred_fields :: dict where
  "sample_hundred_fields =
     [(''codigoBDNS'', JNum 865179),
      (''fechaRecepcion'', JStr ''2024-03-15''),
      (''instrumentos'',
         JArr (map described [''Subvencion'', ''Prestamo'', ''Aval'', ''Garantia'', ''Otros''])),
      (''tiposBeneficiarios'',
         JArr (map described [''PYME'', ''Gran empresa'', ''Autonomo'', ''Entidad local'', ''ONG''])),
      (''sectores'', JArr (map described [''Industria'', ''Comercio'', ''Turismo'', ''Pesca'']))]"

definition sample_hundred_record :: json where
  "sample_hundred_record = JObj sample_hundred_fields"

definition sample_hundred_rows :: "row list" where
  "sample_hundred_rows =
     (case transform_data sample_strptime_year sample_hundred_record of
        Inr rows \<Rightarrow> rows | Inl e \<Rightarrow> [])"

text \<open>
  Faults of a call: the file of 2024 fails and nothing is left of it; the file of
  2024 fails and is left with the row it held.
\<close>

definition sample_fault_no_file :: faults where
  "sample_fault_no_file = (\<lambda>year. if year = 2024 then Some None else None)"

definition sample_fault_same_file :: faults where
  "sample_fault_same_file = (\<lambda>year. if year = 2024 then Some (Some [sample_row_other]) else None)"

text \<open>
  A run of two turns: a reply 200 with the record of 100 rows, during which the file
  of 2024 fails, then the user's interrupt while the next request is waiting.
\<close>

definition sample_failed_save_run :: "event list" where
  "sample_failed_save_run =
     [Probe (Response 200 sample_hundred_record) sample_fault_no_file, Interrupt_in_fetch]"


section \<open>Properties of the row flattener\<close>

lemma ebind_Inr [simp]: "ebind (Inr x) f = f x"
  by (simp add: ebind_def)

lemma ebind_Inl [simp]: "ebind (Inl e) f = Inl e"
  by (simp add: ebind_def)

lemma mapM_all_Inr:
  assumes "\<forall>x\<in>set xs. f x = Inr (g x)"
  shows "mapM f xs = Inr (map g xs)"
  using assms by (induction xs) simp_all

lemma length_product4:
  "length (product4 as bs cs ds) = length as * length bs * length cs * length ds"
  by (simp add: product4_def length_concat o_def sum_list_triv sum_list_const_mult)

lemma set_product4:
  "set (product4 as bs cs ds) = set as \<times> set bs \<times> set cs \<times> set ds"
  by (auto simp: product4_def)

lemma nested_array_ok:
  assumes "dimension_ok (dict_get d k)"
  shows "\<exists>xs. nested_array d k = JArr xs \<and> list_all is_obj xs \<and>
              length xs = max (dimension_len (dict_get d k)) 1"
proof (cases "map_of d k")
  case None
  then show ?thesis
    by (simp add: nested_array_def dict_get_default_def dict_get_def dimension_len_def)
next
  case (Some v)
  show ?thesis
  proof (cases "truthy v")
    case False
    with Some show ?thesis
      by (cases v) (simp_all add: nested_array_def dict_get_default_def dict_get_def dimension_len_def)
  next
    case True
    with Some assms obtain xs where v: "v = JArr xs" and ok: "list_all is_obj xs"
      by (cases v) (simp_all add: dimension_ok_def dict_get_def)
    from True v have "xs \<noteq> []" by simp
    then have "length xs = max (length xs) 1"
      by (cases xs) simp_all
    with Some v ok True show ?thesis
      by (simp add: nested_array_def dict_get_default_def dict_get_def dimension_len_def)
  qed
qed

lemma make_row_objs:
  assumes "is_obj i" "is_obj b" "is_obj s" "is_obj r"
  shows "make_row base (i, b, s, r) = Inr (base @ dimension_items (i, b, s, r))"
  using assms
  by (cases i; cases b; cases s; cases r) (simp_all add: dimension_items_def)


lemma transform_data_well_formed:
  assumes wf: "well_formed_record d"
  shows "\<exists>og is bs ss rs.
           dict_get_default d ''organo'' (JObj []) = JObj og \<and>
           nested_array d ''instrumentos'' = JArr is \<and>
           nested_array d ''tiposBeneficiarios'' = JArr bs \<and>
           nested_array d ''sectores'' = JArr ss \<and>
           nested_array d ''regiones'' = JArr rs \<and>
           length is = max (dimension_len (dict_get d ''instrumentos'')) 1 \<and>
           length bs = max (dimension_len (dict_get d ''tiposBeneficiarios'')) 1 \<and>
           length ss = max (dimension_len (dict_get d ''sectores'')) 1 \<and>
           length rs = max (dimension_len (dict_get d ''regiones'')) 1 \<and>
           transform_data strptime_year (JObj d) =
             Inr (map (\<lambda>t.
                    (map (\<lambda>k. (k, dict_get d k)) base_fields @
                     [(''organo_nivel1'', dict_get og ''nivel1''),
                      (''organo_nivel2'', dict_get og ''nivel2''),
                      (''organo_nivel3'', dict_get og ''nivel3''),
                      (''year'', year_of strptime_year (dict_get d ''fechaRecepcion''))]) @
                    dimension_items t)
                  (product4 is bs ss rs))"
proof -
  from wf obtain og where og: "dict_get_default d ''organo'' (JObj []) = JObj og"
    by (cases "dict_get_default d ''organo'' (JObj [])") (simp_all add: well_formed_record_def)
  from wf nested_array_ok obtain "is" where
    i: "nested_array d ''instrumentos'' = JArr is" "list_all is_obj is"
       "length is = max (dimension_len (dict_get d ''instrumentos'')) 1"
    unfolding well_formed_record_def by blast
  from wf nested_array_ok obtain bs where
    b: "nested_array d ''tiposBeneficiarios'' = JArr bs" "list_all is_obj bs"
       "length bs = max (dimension_len (dict_get d ''tiposBeneficiarios'')) 1"
    unfolding well_formed_record_def by blast
  from wf nested_array_ok obtain ss where
    s: "nested_array d ''sectores'' = JArr ss" "list_all is_obj ss"
       "length ss = max (dimension_len (dict_get d ''sectores'')) 1"
    unfolding well_formed_record_def by blast
  from wf nested_array_ok obtain rs where
    r: "nested_array d ''regiones'' = JArr rs" "list_all is_obj rs"
       "length rs = max (dimension_len (dict_get d ''regiones'')) 1"
    unfolding well_formed_record_def by blast
  have rows: "mapM (make_row base) (product4 is bs ss rs) =
        Inr (map (\<lambda>t. base @ dimension_items t) (product4 is bs ss rs))" for base
    using i(2) b(2) s(2) r(2)
    by (intro mapM_all_Inr) (auto simp: set_product4 list_all_iff make_row_objs simp del: make_row.simps)
  have "transform_data strptime_year (JObj d) =
          Inr (map (\<lambda>t.
                    (map (\<lambda>k. (k, dict_get d k)) base_fields @
                     [(''organo_nivel1'', dict_get og ''nivel1''),
                      (''organo_nivel2'', dict_get og ''nivel2''),
                      (''organo_nivel3'', dict_get og ''nivel3''),
                      (''year'', year_of strptime_year (dict_get d ''fechaRecepcion''))]) @
                    dimension_items t)
                  (product4 is bs ss rs))"
    by (simp add: transform_data_def og i(1) b(1) s(1) r(1) rows Let_def)
  with og i b s r show ?thesis by blast
qed





section \<open>Properties of the store\<close>

lemma set_drop_duplicates_last: "set (drop_duplicates_last rs) \<subseteq> set rs"
  by (induction rs) auto

lemma codigo_drop_duplicates_last:
  "codigo ` set (drop_duplicates_last rs) = codigo ` set rs"
  by (induction rs) auto

lemma distinct_drop_duplicates_last: "distinct (map codigo (drop_duplicates_last rs))"
proof (induction rs)
  case Nil
  show ?case by simp
next
  case (Cons r rs)
  have "codigo r \<notin> codigo ` set rs \<Longrightarrow> codigo r \<notin> codigo ` set (drop_duplicates_last rs)"
    by (simp add: codigo_drop_duplicates_last)
  with Cons show ?case by simp
qed

lemma drop_duplicates_last_distinct:
  "distinct (map codigo rs) \<Longrightarrow> drop_duplicates_last rs = rs"
  by (induction rs) auto

lemma drop_duplicates_last_append:
  "drop_duplicates_last (xs @ ys) =
     filter (\<lambda>r. codigo r \<notin> codigo ` set ys) (drop_duplicates_last xs) @ drop_duplicates_last ys"
proof (induction xs)
  case Nil
  show ?case by simp
next
  case (Cons x xs)
  show ?case
  proof (cases "codigo x \<in> codigo ` set xs")
    case True
    with Cons show ?thesis by auto
  next
    case False
    with Cons show ?thesis by auto
  qed
qed

lemma filter_codigo_drop_duplicates_last:
  "filter (\<lambda>r. codigo r = x) (drop_duplicates_last rs) =
     (if x \<in> codigo ` set rs then [last (filter (\<lambda>r. codigo r = x) rs)] else [])"
proof (induction rs)
  case Nil
  show ?case by simp
next
  case (Cons r rs)
  show ?case
  proof (cases "codigo r = x")
    case True
    show ?thesis
    proof (cases "x \<in> codigo ` set rs")
      case in_rest: True
      then have "filter (\<lambda>r. codigo r = x) rs \<noteq> []"
        by (auto simp: filter_empty_conv)
      with True in_rest Cons show ?thesis by auto
    next
      case not_in_rest: False
      then have "filter (\<lambda>r. codigo r = x) rs = []"
        by (auto simp: filter_empty_conv)
      with True not_in_rest Cons show ?thesis by auto
    qed
  next
    case False
    with Cons show ?thesis by auto
  qed
qed

lemma drop_duplicates_last_again:
  "drop_duplicates_last (drop_duplicates_last (xs @ ys) @ ys) = drop_duplicates_last (xs @ ys)"
proof -
  let ?keep = "\<lambda>r. codigo r \<notin> codigo ` set ys"
  have inner: "drop_duplicates_last (drop_duplicates_last (xs @ ys)) = drop_duplicates_last (xs @ ys)"
    by (rule drop_duplicates_last_distinct) (rule distinct_drop_duplicates_last)
  have gone: "filter ?keep (drop_duplicates_last ys) = []"
    using set_drop_duplicates_last [of ys] by (auto simp: filter_empty_conv)
  have "drop_duplicates_last (drop_duplicates_last (xs @ ys) @ ys) =
          filter ?keep (drop_duplicates_last (xs @ ys)) @ drop_duplicates_last ys"
    by (simp only: drop_duplicates_last_append [of "drop_duplicates_last (xs @ ys)" ys] inner)
  also have "\<dots> = filter ?keep (drop_duplicates_last xs) @ drop_duplicates_last ys"
    by (simp add: drop_duplicates_last_append [of xs ys] gone)
  also have "\<dots> = drop_duplicates_last (xs @ ys)"
    by (simp add: drop_duplicates_last_append [of xs ys])
  finally show ?thesis .
qed

lemma drop_duplicates_last_twice_distinct:
  assumes "distinct (map codigo rs)"
  shows "drop_duplicates_last (rs @ rs) = rs"
proof -
  have "filter (\<lambda>r. codigo r \<notin> codigo ` set rs) (drop_duplicates_last rs) = []"
    using set_drop_duplicates_last [of rs] by (auto simp: filter_empty_conv)
  then show ?thesis
    by (simp add: drop_duplicates_last_append drop_duplicates_last_distinct [OF assms])
qed

text \<open>What one successful call writes.\<close>

lemma save_to_parquet_ok:
  assumes "map_of (dataframes_by_year s) year = Some df" "df \<noteq> []" "faults year = None"
  shows "save_to_parquet faults year s =
     s\<lparr>parquet_files :=
         AList.update year
           (case map_of (parquet_files s) year of
              Some existing_df \<Rightarrow> drop_duplicates_last (existing_df @ df)
            | None \<Rightarrow> df)
           (parquet_files s),
       stdout := stdout s @ [Msg_saved (length df) year],
       dataframes_by_year := AList.update year [] (dataframes_by_year s)\<rparr>"
  using assms by (simp add: save_to_parquet_def)

lemma save_to_parquet_merge:
  assumes "map_of (parquet_files s) year = Some existing_df"
    and "map_of (dataframes_by_year s) year = Some df" "df \<noteq> []" "faults year = None"
  shows "map_of (parquet_files (save_to_parquet faults year s)) year =
           Some (drop_duplicates_last (existing_df @ df))"
  using assms by (simp add: save_to_parquet_ok AList.update_conv')

text \<open>
  Claim C5. When the year has a file and the new rows hold identifier \<open>x\<close>, the file
  written by \<open>save_to_parquet\<close> holds exactly one row with identifier \<open>x\<close>, and it is
  the last new row with that identifier: the new value replaces whatever the existing
  file held for \<open>x\<close>.
\<close>

theorem merge_precedence:
  assumes "map_of (parquet_files s) year = Some existing_df"
    and "map_of (dataframes_by_year s) year = Some df"
    and "faults year = None"
    and "filter (\<lambda>r. codigo r = x) df \<noteq> []"
  shows "\<exists>stored. map_of (parquet_files (save_to_parquet faults year s)) year = Some stored \<and>
           filter (\<lambda>r. codigo r = x) stored = [last (filter (\<lambda>r. codigo r = x) df)]"
proof -
  from assms(4) have ne: "df \<noteq> []" by auto
  from assms(4) have x_in: "x \<in> codigo ` set df"
    by (auto simp: filter_empty_conv)
  have "filter (\<lambda>r. codigo r = x) (drop_duplicates_last (existing_df @ df)) =
          [last (filter (\<lambda>r. codigo r = x) df)]"
    using x_in assms(4) by (simp add: filter_codigo_drop_duplicates_last image_Un)
  with save_to_parquet_merge [where faults = faults, OF assms(1,2) ne assms(3)] show ?thesis by simp
qed

theorem merge_precedence_witness:
  "map_of (parquet_files sample_merge_state) 2024 = Some [sample_row_other, sample_row_old] \<and>
   map_of (dataframes_by_year sample_merge_state) 2024 = Some [sample_row_a, sample_row_b] \<and>
   filter (\<lambda>r. codigo r = JNum 7) [sample_row_a, sample_row_b] \<noteq> [] \<and>
   (\<exists>stored. map_of (parquet_files (save_to_parquet Map.empty 2024 sample_merge_state)) 2024 = Some stored \<and>
      filter (\<lambda>r. codigo r = JNum 7) stored = [sample_row_b])"
proof -
  have files: "map_of (parquet_files sample_merge_state) 2024 = Some [sample_row_other, sample_row_old]"
    by (simp add: sample_merge_state_def init_def)
  have frame: "map_of (dataframes_by_year sample_merge_state) 2024 = Some [sample_row_a, sample_row_b]"
    by (simp add: sample_merge_state_def init_def)
  have no_fault: "(Map.empty :: faults) 2024 = None" by simp
  have new: "filter (\<lambda>r. codigo r = JNum 7) [sample_row_a, sample_row_b] = [sample_row_a, sample_row_b]"
    by (simp add: codigo_def dict_get_def sample_row_a_def sample_row_b_def)
  then have has_x: "filter (\<lambda>r. codigo r = JNum 7) [sample_row_a, sample_row_b] \<noteq> []" by simp
  from merge_precedence [where faults = Map.empty, OF files frame no_fault has_x] files frame show ?thesis
    by (simp add: codigo_def dict_get_def sample_row_a_def sample_row_b_def)
qed

text \<open>
  Claim C8. After a merge (the year already has a file), the identifiers of the file
  written are pairwise distinct, they are the identifiers of the existing and the new
  rows, and each identifier keeps its last row in write order (existing rows, then new
  rows), whatever its fields hold.
\<close>

theorem merge_unique_identifier:
  assumes "map_of (parquet_files s) year = Some existing_df"
    and "map_of (dataframes_by_year s) year = Some df" "df \<noteq> []" "faults year = None"
  shows "\<exists>stored. map_of (parquet_files (save_to_parquet faults year s)) year = Some stored \<and>
           distinct (map codigo stored) \<and>
           codigo ` set stored = codigo ` set (existing_df @ df) \<and>
           (\<forall>r\<in>set stored. r = last (filter (\<lambda>q. codigo q = codigo r) (existing_df @ df)))"
proof -
  let ?all = "existing_df @ df"
  let ?stored = "drop_duplicates_last ?all"
  have last_wins: "r = last (filter (\<lambda>q. codigo q = codigo r) ?all)" if "r \<in> set ?stored" for r
  proof -
    from that have "r \<in> set (filter (\<lambda>q. codigo q = codigo r) ?stored)" by simp
    moreover from that have "codigo r \<in> codigo ` set ?all"
      using codigo_drop_duplicates_last [of ?all] by blast
    ultimately show ?thesis
      by (simp only: filter_codigo_drop_duplicates_last [of "codigo r" ?all]) simp
  qed
  from save_to_parquet_merge [where faults = faults, OF assms]
  have "map_of (parquet_files (save_to_parquet faults year s)) year = Some ?stored" .
  moreover have "distinct (map codigo ?stored)" by (rule distinct_drop_duplicates_last)
  moreover have "codigo ` set ?stored = codigo ` set ?all" by (rule codigo_drop_duplicates_last)
  ultimately show ?thesis using last_wins by blast
qed

theorem merge_unique_identifier_witness:
  "map_of (parquet_files sample_merge_state) 2024 = Some [sample_row_other, sample_row_old] \<and>
   map_of (dataframes_by_year sample_merge_state) 2024 = Some [sample_row_a, sample_row_b] \<and>
   [sample_row_a, sample_row_b] \<noteq> [] \<and>
   (\<exists>stored. map_of (parquet_files (save_to_parquet Map.empty 2024 sample_merge_state)) 2024 = Some stored \<and>
      distinct (map codigo stored) \<and>
      codigo ` set stored =
        codigo ` set ([sample_row_other, sample_row_old] @ [sample_row_a, sample_row_b]) \<and>
      (\<forall>r\<in>set stored.
         r = last (filter (\<lambda>q. codigo q = codigo r)
                    ([sample_row_other, sample_row_old] @ [sample_row_a, sample_row_b]))))"
proof -
  have files: "map_of (parquet_files sample_merge_state) 2024 = Some [sample_row_other, sample_row_old]"
    by (simp add: sample_merge_state_def init_def)
  have frame: "map_of (dataframes_by_year sample_merge_state) 2024 = Some [sample_row_a, sample_row_b]"
    by (simp add: sample_merge_state_def init_def)
  have ne: "[sample_row_a, sample_row_b] \<noteq> []" by simp
  have no_fault: "(Map.empty :: faults) 2024 = None" by simp
  from merge_unique_identifier [where faults = Map.empty, OF files frame ne no_fault] files frame show ?thesis
    by simp
qed

lemma sample_year: "sample_strptime_year ''2024-03-15'' = Some 2024"
  by code_simp

lemma transform_sample: "transform_data sample_strptime_year sample_record = Inr sample_rows"
  unfolding sample_rows_def by code_simp

lemma length_sample_rows: "length sample_rows = 2"
  by code_simp

lemma flush_nonempty:
  assumes "rows \<noteq> []"
  shows "parquet_files (flush year rows s) =
     AList.update year
       (case map_of (parquet_files s) year of
          Some existing_df \<Rightarrow> drop_duplicates_last (existing_df @ rows)
        | None \<Rightarrow> rows)
       (parquet_files s)"
  using assms by (simp add: flush_def save_to_parquet_def AList.update_conv')

lemma flush_empty: "parquet_files (flush year [] s) = parquet_files s"
  by (simp add: flush_def save_to_parquet_def AList.update_conv')

text \<open>
  Where the store deduplicates, a second flush of the same rows changes nothing: when
  the year already had a file before the first flush, or when the rows have pairwise
  distinct identifiers.
\<close>

lemma flush_twice_deduplicated:
  assumes "map_of (parquet_files s) year \<noteq> None \<or> distinct (map codigo rows)"
  shows "parquet_files (flush year rows (flush year rows s)) = parquet_files (flush year rows s)"
proof (cases "rows = []")
  case True
  then show ?thesis by (simp add: flush_empty)
next
  case False
  show ?thesis
  proof (cases "map_of (parquet_files s) year")
    case None
    with assms have d: "distinct (map codigo rows)" by simp
    from None False show ?thesis
      by (simp add: flush_nonempty AList.update_conv' drop_duplicates_last_twice_distinct [OF d])
  next
    case (Some existing_df)
    with False show ?thesis
      by (simp add: flush_nonempty AList.update_conv' drop_duplicates_last_again)
  qed
qed

text \<open>
  Claim C4 at one input. The year has no file and the two rows flushed are the rows of
  one announcement. The first flush takes the branch that writes the DataFrame as it
  is, without \<open>drop_duplicates\<close>, and stores both rows; the second flush of the same rows
  takes the branch that merges and deduplicates, and leaves one row. Flushing twice
  does not give what flushing once gives.
\<close>

theorem flush_twice_first_write:
  "map_of (parquet_files (init 8 [])) 2024 = None \<and>
   parquet_files (flush 2024 [sample_row_a, sample_row_b] (init 8 [])) =
     [(2024, [sample_row_a, sample_row_b])] \<and>
   parquet_files (flush 2024 [sample_row_a, sample_row_b]
                   (flush 2024 [sample_row_a, sample_row_b] (init 8 []))) =
     [(2024, [sample_row_b])] \<and>
   parquet_files (flush 2024 [sample_row_a, sample_row_b]
                   (flush 2024 [sample_row_a, sample_row_b] (init 8 []))) \<noteq>
   parquet_files (flush 2024 [sample_row_a, sample_row_b] (init 8 []))"
  by (simp add: flush_def save_to_parquet_def init_def codigo_def dict_get_def
      sample_row_a_def sample_row_b_def)

section \<open>Properties of the buffer and of a flush of one record\<close>

lemma frame_of_update: "frame_of (AList.update y v al) y = v"
  by (simp add: frame_of_def AList.update_conv')

lemma group_by_year_same_year:
  assumes "\<forall>r\<in>set rows. row_year r = Some year" "rows \<noteq> []"
  shows "group_by_year rows acc = AList.update year (frame_of acc year @ rows) acc"
  using assms
proof (induction rows arbitrary: acc)
  case Nil
  then show ?case by simp
next
  case (Cons r rows)
  show ?case
  proof (cases "rows = []")
    case True
    with Cons.prems show ?thesis by simp
  next
    case False
    with Cons show ?thesis by (simp add: frame_of_update)
  qed
qed

lemma add_rows_same_year:
  assumes "\<forall>r\<in>set rows. row_year r = Some year" "rows \<noteq> []"
  shows "add_rows rows s =
     s\<lparr>dataframes_by_year :=
         AList.update year (frame_of (dataframes_by_year s) year @ rows) (dataframes_by_year s),
       total_records := total_records s + length rows\<rparr>"
  using assms(2)
  by (simp add: add_rows_def group_by_year_same_year [OF assms, of "[]"] add_year_rows_def
      frame_of_def)

lemma base_fields_year: "''year'' \<notin> set base_fields"
  by (simp add: base_fields_def)

lemma transform_data_rows:
  assumes "well_formed_record d" "transform_data strptime_year (JObj d) = Inr rows"
  shows "rows \<noteq> [] \<and>
         (\<forall>r\<in>set rows. codigo r = dict_get d ''codigoBDNS'' \<and>
            dict_get r ''year'' = year_of strptime_year (dict_get d ''fechaRecepcion''))"
proof -
  from transform_data_well_formed [OF assms(1), of strptime_year]
  obtain og "is" bs ss rs where
     len: "length is = max (dimension_len (dict_get d ''instrumentos'')) 1"
          "length bs = max (dimension_len (dict_get d ''tiposBeneficiarios'')) 1"
          "length ss = max (dimension_len (dict_get d ''sectores'')) 1"
          "length rs = max (dimension_len (dict_get d ''regiones'')) 1"
     and td: "transform_data strptime_year (JObj d) = Inr (map (\<lambda>t.
                    (map (\<lambda>k. (k, dict_get d k)) base_fields @
                     [(''organo_nivel1'', dict_get og ''nivel1''),
                      (''organo_nivel2'', dict_get og ''nivel2''),
                      (''organo_nivel3'', dict_get og ''nivel3''),
                      (''year'', year_of strptime_year (dict_get d ''fechaRecepcion''))]) @
                    dimension_items t)
                  (product4 is bs ss rs))"
    by blast
  from td assms(2) have rows: "rows = map (\<lambda>t.
                    (map (\<lambda>k. (k, dict_get d k)) base_fields @
                     [(''organo_nivel1'', dict_get og ''nivel1''),
                      (''organo_nivel2'', dict_get og ''nivel2''),
                      (''organo_nivel3'', dict_get og ''nivel3''),
                      (''year'', year_of strptime_year (dict_get d ''fechaRecepcion''))]) @
                    dimension_items t)
                  (product4 is bs ss rs)"
    by simp
  from len have "0 < length (product4 is bs ss rs)"
    by (simp add: length_product4 less_max_iff_disj)
  then have ne: "rows \<noteq> []" unfolding rows by fastforce
  have c: "codigo r = dict_get d ''codigoBDNS''" if "r \<in> set rows" for r
    using that unfolding rows by (auto simp: codigo_def dict_get_def base_fields_def)
  have y: "dict_get r ''year'' = year_of strptime_year (dict_get d ''fechaRecepcion'')"
    if "r \<in> set rows" for r
    using that unfolding rows by (auto simp: dict_get_def base_fields_def)
  from ne c y show ?thesis by blast
qed

text \<open>
  Claim C10. The rows of one record, all with one identifier and one year, are added
  to the buffer and the year is saved. When the year has a file, the file written
  holds a single row with that identifier, the last row of the record (the other
  combinations are dropped); when the year has no file, the file written holds every
  buffered row, so all the rows of the record.
\<close>

theorem flush_keeps_last_combination:
  assumes "well_formed_record d"
    and "transform_data strptime_year (JObj d) = Inr rows"
    and "year_of strptime_year (dict_get d ''fechaRecepcion'') = JNum year"
    and "year \<noteq> 0"
  shows "(\<forall>existing_df. map_of (parquet_files s) year = Some existing_df \<longrightarrow>
            (\<exists>stored.
               map_of (parquet_files (save_to_parquet Map.empty year (add_rows rows s))) year = Some stored \<and>
               filter (\<lambda>r. codigo r = dict_get d ''codigoBDNS'') stored = [last rows])) \<and>
         (map_of (parquet_files s) year = None \<longrightarrow>
            map_of (parquet_files (save_to_parquet Map.empty year (add_rows rows s))) year =
              Some (frame_of (dataframes_by_year s) year @ rows))"
proof -
  from transform_data_rows [OF assms(1,2)]
  have ne: "rows \<noteq> []"
    and c: "\<forall>r\<in>set rows. codigo r = dict_get d ''codigoBDNS''"
    and y: "\<forall>r\<in>set rows. dict_get r ''year'' = year_of strptime_year (dict_get d ''fechaRecepcion'')"
    by auto
  from y assms(3,4) have same: "\<forall>r\<in>set rows. row_year r = Some year"
    by (simp add: row_year_def)
  let ?df = "frame_of (dataframes_by_year s) year @ rows"
  let ?s = "add_rows rows s"
  have frame: "map_of (dataframes_by_year ?s) year = Some ?df"
    by (simp add: add_rows_same_year [OF same ne] AList.update_conv')
  have files: "parquet_files ?s = parquet_files s"
    by (simp add: add_rows_same_year [OF same ne])
  from ne have df_ne: "?df \<noteq> []" by simp
  have no_fault: "(Map.empty :: faults) year = None" by simp
  from c ne have all: "filter (\<lambda>r. codigo r = dict_get d ''codigoBDNS'') rows = rows"
    by (simp add: filter_id_conv)
  have has: "filter (\<lambda>r. codigo r = dict_get d ''codigoBDNS'') ?df \<noteq> []"
    using ne by (simp add: all)
  from ne obtain r where "r \<in> set rows" by (cases rows) auto
  with c have x_in: "dict_get d ''codigoBDNS'' \<in> codigo ` set rows" by force
  have merge: "\<exists>stored.
               map_of (parquet_files (save_to_parquet Map.empty year ?s)) year = Some stored \<and>
               filter (\<lambda>r. codigo r = dict_get d ''codigoBDNS'') stored = [last rows]"
    if "map_of (parquet_files s) year = Some existing_df" for existing_df
  proof -
    from that files have "map_of (parquet_files ?s) year = Some existing_df" by simp
    from save_to_parquet_merge [where faults = Map.empty, OF this frame df_ne no_fault]
    have "map_of (parquet_files (save_to_parquet Map.empty year ?s)) year =
            Some (drop_duplicates_last (existing_df @ ?df))" .
    moreover have "filter (\<lambda>r. codigo r = dict_get d ''codigoBDNS'')
                     (drop_duplicates_last (existing_df @ ?df)) = [last rows]"
      using x_in ne by (simp add: filter_codigo_drop_duplicates_last image_Un all)
    ultimately show ?thesis by blast
  qed
  have first: "map_of (parquet_files (save_to_parquet Map.empty year ?s)) year = Some ?df"
    if "map_of (parquet_files s) year = None"
    using that files by (simp add: save_to_parquet_ok [where faults = Map.empty, OF frame df_ne no_fault] AList.update_conv')
  from merge first show ?thesis by blast
qed

lemma sample_well_formed: "well_formed_record sample_fields"
  by (simp add: well_formed_record_def sample_fields_def dict_get_default_def dict_get_def
      dimension_ok_def)

theorem flush_keeps_last_combination_witness:
  "well_formed_record sample_fields \<and>
   transform_data sample_strptime_year (JObj sample_fields) = Inr sample_rows \<and>
   length sample_rows = 2 \<and>
   year_of sample_strptime_year (dict_get sample_fields ''fechaRecepcion'') = JNum 2024 \<and>
   map_of (parquet_files (init 865179 [(2024, [sample_row_other])])) 2024 = Some [sample_row_other] \<and>
   (\<exists>stored.
      map_of (parquet_files (save_to_parquet Map.empty 2024
                (add_rows sample_rows (init 865179 [(2024, [sample_row_other])])))) 2024 = Some stored \<and>
      filter (\<lambda>r. codigo r = dict_get sample_fields ''codigoBDNS'') stored = [last sample_rows]) \<and>
   map_of (parquet_files (init 865179 [])) 2024 = None \<and>
   map_of (parquet_files (save_to_parquet Map.empty 2024 (add_rows sample_rows (init 865179 [])))) 2024 =
     Some sample_rows"
proof -
  have td: "transform_data sample_strptime_year (JObj sample_fields) = Inr sample_rows"
    using transform_sample by (simp add: sample_record_def)
  have yr: "year_of sample_strptime_year (dict_get sample_fields ''fechaRecepcion'') = JNum 2024"
    by (simp add: year_of_def dict_get_def sample_fields_def sample_year)
  have nz: "(2024::int) \<noteq> 0" by simp
  have f1: "map_of (parquet_files (init 865179 [(2024, [sample_row_other])])) 2024 = Some [sample_row_other]"
    by (simp add: init_def)
  have f2: "map_of (parquet_files (init 865179 [])) 2024 = None"
    by (simp add: init_def)
  have e2: "frame_of (dataframes_by_year (init 865179 [])) 2024 = []"
    by (simp add: init_def frame_of_def)
  from flush_keeps_last_combination [OF sample_well_formed td yr nz, of "init 865179 [(2024, [sample_row_other])]"]
       flush_keeps_last_combination [OF sample_well_formed td yr nz, of "init 865179 []"]
       sample_well_formed td yr f1 f2 e2 length_sample_rows
  show ?thesis by simp
qed

section \<open>Properties of the resume point\<close>

lemma map_filter_total:
  assumes "\<forall>x\<in>set xs. f x \<noteq> None"
  shows "List.map_filter f xs = map (\<lambda>x. the (f x)) xs"
  using assms by (induction xs) (auto simp: List.map_filter_simps)

lemma codes_of_file_total:
  assumes "\<forall>r\<in>set df. row_code astype_int r \<noteq> None"
  shows "codes_of_file astype_int df = Inr (map (\<lambda>r. the (row_code astype_int r)) df)"
  unfolding codes_of_file_def
  using assms
  by (intro mapM_all_Inr) (auto simp: row_code_def split: option.splits)

lemma codes_of_files_total:
  assumes "\<forall>r\<in>set (concat files). row_code astype_int r \<noteq> None"
  shows "mapM (codes_of_file astype_int) files =
           Inr (map (map (\<lambda>r. the (row_code astype_int r))) files)"
  using assms
  by (intro mapM_all_Inr) (auto simp: codes_of_file_total)

text \<open>
  Claim C9. When the data directory holds files whose rows all have an identifier that
  converts to an integer (and at least one row), \<open>find_last_bdns\<close> returns one past
  the greatest of these identifiers and the scraper starts there; when the directory
  holds no file, the fixed value 600000 is used.
\<close>

theorem find_last_bdns_resume:
  assumes "dir \<noteq> []"
    and "concat (map snd dir) \<noteq> []"
    and "\<forall>r\<in>set (concat (map snd dir)). row_code astype_int r \<noteq> None"
  shows "(\<exists>n. find_last_bdns astype_int (map snd dir) = Inr n \<and>
            resume astype_int dir = Inr (init n dir) \<and>
            current_bdns (init n dir) = n \<and>
            n - 1 \<in> set (List.map_filter (row_code astype_int) (concat (map snd dir))) \<and>
            (\<forall>m\<in>set (List.map_filter (row_code astype_int) (concat (map snd dir))). m < n)) \<and>
         find_last_bdns astype_int [] = Inr 600000 \<and>
         resume astype_int [] = Inr (init 600000 [])"
proof -
  let ?rows = "concat (map snd dir)"
  let ?ids = "List.map_filter (row_code astype_int) ?rows"
  have ids: "?ids = map (\<lambda>r. the (row_code astype_int r)) ?rows"
    by (rule map_filter_total [OF assms(3)])
  with assms(2) have ne: "?ids \<noteq> []" by simp
  have all: "concat (map (map (\<lambda>r. the (row_code astype_int r))) (map snd dir)) = ?ids"
    by (simp add: ids map_concat)
  let ?n = "Max (set ?ids) + 1"
  from assms(1) have "map snd dir \<noteq> []" by simp
  then have "find_last_bdns astype_int (map snd dir) =
          (if ?ids = [] then Inl ValueError else Inr ?n)"
    by (simp only: find_last_bdns_def codes_of_files_total [OF assms(3)] ebind_Inr all Let_def
        if_False)
  with ne have found: "find_last_bdns astype_int (map snd dir) = Inr ?n"
    by simp
  have "Max (set ?ids) \<in> set ?ids"
    using ne by (intro Max_in) auto
  then have mem: "?n - 1 \<in> set ?ids" by simp
  have above: "\<forall>m\<in>set ?ids. m < ?n"
  proof
    fix m assume "m \<in> set ?ids"
    then have "m \<le> Max (set ?ids)" by (intro Max_ge) auto
    then show "m < ?n" by simp
  qed
  from found have "resume astype_int dir = Inr (init ?n dir)"
    by (simp add: resume_def)
  moreover have "current_bdns (init ?n dir) = ?n" by (simp add: init_def)
  moreover have "find_last_bdns astype_int [] = Inr 600000"
    by (simp add: find_last_bdns_def)
  moreover have "resume astype_int [] = Inr (init 600000 [])"
    by (simp add: resume_def find_last_bdns_def)
  ultimately show ?thesis using found mem above by blast
qed

theorem find_last_bdns_resume_witness:
  "[(2023, [code_row 100, code_row 105]), (2024, [code_row 200])] \<noteq> [] \<and>
   concat (map snd [(2023, [code_row 100, code_row 105]), (2024::int, [code_row 200])]) =
     [code_row 100, code_row 105, code_row 200] \<and>
   List.map_filter (row_code sample_astype_int) [code_row 100, code_row 105, code_row 200] =
     [100, 105, 200] \<and>
   find_last_bdns sample_astype_int [[code_row 100, code_row 105], [code_row 200]] = Inr 201 \<and>
   resume sample_astype_int [(2023, [code_row 100, code_row 105]), (2024, [code_row 200])] =
     Inr (init 201 [(2023, [code_row 100, code_row 105]), (2024, [code_row 200])])"
proof -
  let ?dir = "[(2023::int, [code_row 100, code_row 105]), (2024, [code_row 200])]"
  have h1: "?dir \<noteq> []" by simp
  have rows: "concat (map snd ?dir) = [code_row 100, code_row 105, code_row 200]" by simp
  then have h2: "concat (map snd ?dir) \<noteq> []" by simp
  have codes: "row_code sample_astype_int (code_row n) = Some n" for n
    by (simp add: row_code_def code_row_def sample_astype_int_def)
  have h3: "\<forall>r\<in>set (concat (map snd ?dir)). row_code sample_astype_int r \<noteq> None"
    by (simp add: codes)
  have ids: "List.map_filter (row_code sample_astype_int) [code_row 100, code_row 105, code_row 200] =
     [100, 105, 200]"
    by (simp add: List.map_filter_simps codes)
  from find_last_bdns_resume [OF h1 h2 h3] obtain n where
    n: "find_last_bdns sample_astype_int (map snd ?dir) = Inr n"
       "resume sample_astype_int ?dir = Inr (init n ?dir)"
       "n - 1 \<in> set (List.map_filter (row_code sample_astype_int) (concat (map snd ?dir)))"
       "\<forall>m\<in>set (List.map_filter (row_code sample_astype_int) (concat (map snd ?dir))). m < n"
    by blast
  from n(3,4) have "n = 201" by (simp add: codes)
  with n(1,2) h1 rows ids show ?thesis by simp
qed

section \<open>Properties of the driver: when the loop stops\<close>

lemma save_to_parquet_fields [simp]:
  "consecutive_404s (save_to_parquet faults year s) = consecutive_404s s"
  "current_bdns (save_to_parquet faults year s) = current_bdns s"
  "total_records (save_to_parquet faults year s) = total_records s"
  by (simp_all add: save_to_parquet_def split: option.splits)

lemma save_if_not_empty_fields [simp]:
  "consecutive_404s (save_if_not_empty faults year s) = consecutive_404s s"
  "current_bdns (save_if_not_empty faults year s) = current_bdns s"
  "total_records (save_if_not_empty faults year s) = total_records s"
  by (simp_all add: save_if_not_empty_def)

lemma fold_save_fields:
  "consecutive_404s (fold (save_if_not_empty faults) ys s) = consecutive_404s s \<and>
   current_bdns (fold (save_if_not_empty faults) ys s) = current_bdns s \<and>
   total_records (fold (save_if_not_empty faults) ys s) = total_records s"
  by (induction ys arbitrary: s) simp_all

lemma save_all_fields [simp]:
  "consecutive_404s (save_all faults s) = consecutive_404s s"
  "current_bdns (save_all faults s) = current_bdns s"
  "total_records (save_all faults s) = total_records s"
  by (simp_all add: save_all_def fold_save_fields)

lemma finally_block_fields [simp]:
  "consecutive_404s (finally_block faults r s) = consecutive_404s s"
  "current_bdns (finally_block faults r s) = current_bdns s"
  "total_records (finally_block faults r s) = total_records s"
  by (simp_all add: finally_block_def)

lemma fold_add_year_rows_fields:
  "consecutive_404s (fold add_year_rows yrs s) = consecutive_404s s \<and>
   current_bdns (fold add_year_rows yrs s) = current_bdns s"
  by (induction yrs arbitrary: s) (simp_all add: add_year_rows_def)

lemma add_rows_fields [simp]:
  "consecutive_404s (add_rows rows s) = consecutive_404s s"
  "current_bdns (add_rows rows s) = current_bdns s"
  by (simp_all add: add_rows_def fold_add_year_rows_fields)

text \<open>
  A turn of the loop that runs to its end moves the counter as \<open>next_count\<close> says and
  the cursor by one; a turn that raises leaves the cursor where it was.
\<close>

lemma iteration_completes:
  assumes "iteration strptime_year faults rep s = (s', None)"
  shows "consecutive_404s s' = next_count (consecutive_404s s) rep"
    and "current_bdns s' = current_bdns s + 1"
  using assms
  by (auto simp: iteration_def fetch_convocatoria_def next_count_def Let_def
           split: reply.splits if_splits sum.splits)

lemma iteration_crashes:
  assumes "iteration strptime_year faults rep s = (s', Some e)"
  shows "current_bdns s' = current_bdns s"
  using assms
  by (auto simp: iteration_def fetch_convocatoria_def Let_def
           split: reply.splits if_splits sum.splits)

lemma next_count_le:
  "c < k \<Longrightarrow> next_count c r \<le> k"
  by (simp add: next_count_def)

lemma counter_after_Cons:
  "counter_after c (r # rs) = counter_after (next_count c r) rs"
  by (simp add: counter_after_def)

lemma is_404_not_200: "is_404 r \<Longrightarrow> \<not> is_200 r"
  by (cases r) simp_all

lemma trailing_404s_snoc:
  "trailing_404s (rs @ [r]) = next_count (trailing_404s rs) r"
  by (auto simp: trailing_404s_def next_count_def is_404_not_200)

lemma counter_after_trailing:
  "counter_after 0 rs = trailing_404s rs"
proof (induction rs rule: rev_induct)
  case Nil
  show ?case by (simp add: counter_after_def trailing_404s_def)
next
  case (snoc r rs)
  then show ?case by (simp add: counter_after_def trailing_404s_snoc)
qed

text \<open>The loop over probes, from any state whose counter is not past the threshold.\<close>

lemma loop_probes:
  assumes "loop strptime_year k (probes pfs) s = (s', st)"
    and "consecutive_404s s \<le> k"
  shows "\<exists>n\<le>length pfs.
           current_bdns s' = current_bdns s + int n \<and>
           (\<forall>j<n. counter_after (consecutive_404s s) (take j (map fst pfs)) < k) \<and>
           (st = Stopped MaxConsecutiveFailures \<longleftrightarrow>
              counter_after (consecutive_404s s) (take n (map fst pfs)) = k) \<and>
           (st = Stopped MaxConsecutiveFailures \<longrightarrow> consecutive_404s s' = k) \<and>
           (st = Running \<longrightarrow> n = length pfs)"
  using assms
proof (induction pfs arbitrary: s)
  case Nil
  then show ?case
    by (auto simp: probes_def counter_after_def split: if_splits)
next
  case (Cons pf pfs)
  obtain rep faults where pf: "pf = (rep, faults)" by (cases pf)
  show ?case
  proof (cases "consecutive_404s s < k")
    case False
    with Cons.prems have "st = Stopped MaxConsecutiveFailures" "s' = s" "consecutive_404s s = k"
      by (auto simp: probes_def)
    then show ?thesis
      by (intro exI [of _ 0]) (simp add: counter_after_def)
  next
    case True
    obtain s1 r where it: "iteration strptime_year faults rep s = (s1, r)"
      by (cases "iteration strptime_year faults rep s")
    show ?thesis
    proof (cases r)
      case (Some e)
      with Cons.prems True it pf have "st = Stopped (Crashed e)" "s' = s1"
        by (auto simp: probes_def)
      moreover from it Some have "current_bdns s1 = current_bdns s"
        using iteration_crashes by blast
      ultimately show ?thesis using True
        by (intro exI [of _ 0]) (simp add: counter_after_def)
    next
      case None
      with it have c1: "consecutive_404s s1 = next_count (consecutive_404s s) rep"
        and b1: "current_bdns s1 = current_bdns s + 1"
        using iteration_completes by blast+
      from Cons.prems True it None pf
      have l: "loop strptime_year k (probes pfs) s1 = (s', st)"
        by (simp add: probes_def)
      from c1 True have "consecutive_404s s1 \<le> k" by (simp add: next_count_le)
      from Cons.IH [OF l this] obtain n where n: "n \<le> length pfs"
        "current_bdns s' = current_bdns s1 + int n"
        "\<forall>j<n. counter_after (consecutive_404s s1) (take j (map fst pfs)) < k"
        "st = Stopped MaxConsecutiveFailures \<longleftrightarrow>
           counter_after (consecutive_404s s1) (take n (map fst pfs)) = k"
        "st = Stopped MaxConsecutiveFailures \<longrightarrow> consecutive_404s s' = k"
        "st = Running \<longrightarrow> n = length pfs"
        by blast
      have "\<forall>j<Suc n. counter_after (consecutive_404s s) (take j (map fst (pf # pfs))) < k"
      proof (intro allI impI)
        fix j assume "j < Suc n"
        show "counter_after (consecutive_404s s) (take j (map fst (pf # pfs))) < k"
        proof (cases j)
          case 0
          then show ?thesis using True by (simp add: counter_after_def)
        next
          case (Suc j')
          with \<open>j < Suc n\<close> n(3) c1 pf show ?thesis
            by (simp add: counter_after_Cons)
        qed
      qed
      with n b1 c1 pf show ?thesis
        by (intro exI [of _ "Suc n"]) (simp add: counter_after_Cons)
    qed
  qed
qed

text \<open>
  Claim C1, as the code has it. \<open>run\<close> with threshold \<open>k\<close>, started at \<open>start\<close>, over any
  sequence of probes: let \<open>n\<close> be the number of probes that ran to their end, so that the
  cursor is at \<open>start + n\<close>. Before each of them the number of replies 404 since the last
  reply with status 200 was below \<open>k\<close>. The run stops for the reason
  \<open>MaxConsecutiveFailures\<close> exactly when that number is \<open>k\<close> after the \<open>n\<close>-th probe, the counter
  is then \<open>k\<close>, and no further probe is made; a run that is still going has made every
  probe. Only a reply 404 is counted, and every reply with status 200 resets the
  counter, also one whose body does not decode (the code reports it as a failed
  request); a request that fails without a response, or a response with another
  status, neither increments the counter nor resets it.
\<close>

theorem run_stops_at_threshold:
  assumes "run_with strptime_year k (probes pfs) final_faults (init start files) = (s', st)"
  shows "\<exists>n\<le>length pfs.
           current_bdns s' = start + int n \<and>
           (\<forall>j<n. trailing_404s (take j (map fst pfs)) < k) \<and>
           (st = Stopped MaxConsecutiveFailures \<longleftrightarrow>
              trailing_404s (take n (map fst pfs)) = k) \<and>
           (st = Stopped MaxConsecutiveFailures \<longrightarrow> consecutive_404s s' = k) \<and>
           (st = Running \<longrightarrow> n = length pfs)"
proof -
  obtain s1 where l: "loop strptime_year k (probes pfs) (init start files) = (s1, st)"
    and c: "consecutive_404s s' = consecutive_404s s1"
    and b: "current_bdns s' = current_bdns s1"
    using assms
    by (cases "loop strptime_year k (probes pfs) (init start files)")
       (auto simp: run_with_def split: status.splits)
  have "consecutive_404s (init start files) \<le> k" by (simp add: init_def)
  from loop_probes [OF l this] c b show ?thesis
    by (simp add: counter_after_trailing init_def)
qed

text \<open>
  Thirteen probes, the threshold 10: the run stops after the eleventh, the tenth
  reply 404, and the failed request in between has not been counted. Nineteen
  probes, with a reply 200 that does not decode after the ninth: the counter was
  reset, the run is still going after the nineteenth and the counter is 9.
\<close>

theorem run_stops_at_threshold_witness:
  "snd (run sample_strptime_year (probes sample_404_probes) Map.empty (init 865179 [])) =
     Stopped MaxConsecutiveFailures \<and>
   consecutive_404s
     (fst (run sample_strptime_year (probes sample_404_probes) Map.empty (init 865179 []))) =
     MAX_CONSECUTIVE_404 \<and>
   (\<exists>n. n \<le> length sample_404_probes \<and>
      current_bdns
        (fst (run sample_strptime_year (probes sample_404_probes) Map.empty (init 865179 []))) =
        865179 + int n \<and>
      trailing_404s (take n (map fst sample_404_probes)) = MAX_CONSECUTIVE_404) \<and>
   snd (run sample_strptime_year (probes sample_undecodable_probes) Map.empty (init 865179 [])) =
     Running \<and>
   current_bdns
     (fst (run sample_strptime_year (probes sample_undecodable_probes) Map.empty (init 865179 []))) =
     865179 + int (length sample_undecodable_probes) \<and>
   length sample_undecodable_probes = 19 \<and>
   trailing_404s (map fst sample_undecodable_probes) = 9"
proof -
  let ?R = "run sample_strptime_year (probes sample_404_probes) Map.empty (init 865179 [])"
  let ?U = "run sample_strptime_year (probes sample_undecodable_probes) Map.empty (init 865179 [])"
  have st: "snd ?R = Stopped MaxConsecutiveFailures"
    by code_simp
  have "run_with sample_strptime_year MAX_CONSECUTIVE_404 (probes sample_404_probes) Map.empty
          (init 865179 []) = (fst ?R, snd ?R)"
    by (simp add: run_def)
  from run_stops_at_threshold [OF this] st
  have 1: "consecutive_404s (fst ?R) = MAX_CONSECUTIVE_404 \<and>
     (\<exists>n. n \<le> length sample_404_probes \<and> current_bdns (fst ?R) = 865179 + int n \<and>
        trailing_404s (take n (map fst sample_404_probes)) = MAX_CONSECUTIVE_404)"
    by auto
  have su: "snd ?U = Running"
    by code_simp
  have "run_with sample_strptime_year MAX_CONSECUTIVE_404 (probes sample_undecodable_probes)
          Map.empty (init 865179 []) = (fst ?U, snd ?U)"
    by (simp add: run_def)
  from run_stops_at_threshold [OF this] su
  have 2: "current_bdns (fst ?U) = 865179 + int (length sample_undecodable_probes)"
    by auto
  have 3: "length sample_undecodable_probes = 19"
    by (simp add: sample_undecodable_probes_def)
  have 4: "trailing_404s (map fst sample_undecodable_probes) = 9"
    by code_simp
  from st 1 su 2 3 4 show ?thesis by blast
qed

text \<open>
  Eleven replies in a row that are not a record, none of them 404: the counter is
  still 0, the cursor has moved eleven times and the loop goes on.
\<close>

theorem run_stops_at_threshold_counterexample:
  "length sample_transient_probes = 11 \<and>
   filter is_found (map fst sample_transient_probes) = [] \<and>
   filter is_404 (map fst sample_transient_probes) = [] \<and>
   snd (run sample_strptime_year (probes sample_transient_probes) Map.empty (init 865179 [])) = Running \<and>
   consecutive_404s
     (fst (run sample_strptime_year (probes sample_transient_probes) Map.empty (init 865179 []))) = 0 \<and>
   current_bdns
     (fst (run sample_strptime_year (probes sample_transient_probes) Map.empty (init 865179 []))) =
     865179 + 11"
  by code_simp

section \<open>Properties of the driver: the periodic save\<close>

lemma transform_data_length:
  assumes "well_formed_record d"
  shows "\<exists>rows. transform_data strptime_year (JObj d) = Inr rows \<and>
           length rows =
             max (dimension_len (dict_get d ''instrumentos'')) 1 *
             max (dimension_len (dict_get d ''tiposBeneficiarios'')) 1 *
             max (dimension_len (dict_get d ''sectores'')) 1 *
             max (dimension_len (dict_get d ''regiones'')) 1"
proof -
  from transform_data_well_formed [OF assms, of strptime_year]
  obtain og "is" bs ss rs where
    len: "length is = max (dimension_len (dict_get d ''instrumentos'')) 1"
         "length bs = max (dimension_len (dict_get d ''tiposBeneficiarios'')) 1"
         "length ss = max (dimension_len (dict_get d ''sectores'')) 1"
         "length rs = max (dimension_len (dict_get d ''regiones'')) 1"
    and td: "transform_data strptime_year (JObj d) =
             Inr (map (\<lambda>t.
                    (map (\<lambda>k. (k, dict_get d k)) base_fields @
                     [(''organo_nivel1'', dict_get og ''nivel1''),
                      (''organo_nivel2'', dict_get og ''nivel2''),
                      (''organo_nivel3'', dict_get og ''nivel3''),
                      (''year'', year_of strptime_year (dict_get d ''fechaRecepcion''))]) @
                    dimension_items t)
                  (product4 is bs ss rs))"
    by blast
  from td len show ?thesis by (simp add: length_product4)
qed

lemma rows_of_record_year:
  assumes "well_formed_record d" "transform_data strptime_year (JObj d) = Inr rows"
    and "year_of strptime_year (dict_get d ''fechaRecepcion'') = JNum year" "year \<noteq> 0"
  shows "rows \<noteq> []" and "\<forall>r\<in>set rows. row_year r = Some year"
  using transform_data_rows [OF assms(1,2)] assms(3,4)
  by (simp_all add: row_year_def)

text \<open>
  A turn of the loop on a reply 200 that holds a record of the shape above with a
  date in a year other than 0: the rows go to the year's DataFrame, and the files
  are saved when the counter of rows is then a multiple of 100.
\<close>

lemma iteration_record:
  assumes "well_formed_record d" "d \<noteq> []"
    and "transform_data strptime_year (JObj d) = Inr rows"
    and "year_of strptime_year (dict_get d ''fechaRecepcion'') = JNum year" "year \<noteq> 0"
  shows "iteration strptime_year faults (Response 200 (JObj d)) s =
     (let s2 = s\<lparr>total_requests := total_requests s + 1, consecutive_404s := 0,
                  stdout := stdout s @ [Msg_fetched (current_bdns s)],
                  dataframes_by_year :=
                    AList.update year (frame_of (dataframes_by_year s) year @ rows)
                      (dataframes_by_year s),
                  total_records := total_records s + length rows\<rparr>;
          s3 = (if (total_records s + length rows) mod 100 = 0 then save_all faults s2 else s2)
      in (s3\<lparr>current_bdns := current_bdns s + 1\<rparr>, None))"
proof -
  note ry = rows_of_record_year [OF assms(1) assms(3) assms(4) assms(5)]
  from ry(1) have "0 < length rows" by simp
  then show ?thesis
    using assms(2,3)
    by (simp add: iteration_def fetch_convocatoria_def Let_def add_rows_same_year [OF ry(2) ry(1)])
qed

lemma sample_big_well_formed: "well_formed_record sample_big_fields"
  by (simp add: well_formed_record_def sample_big_fields_def dict_get_default_def dict_get_def
      dimension_ok_def described_def)

lemma transform_big:
  "transform_data sample_strptime_year sample_big_record = Inr sample_big_rows \<and>
   length sample_big_rows = 108"
proof -
  from transform_data_length [OF sample_big_well_formed, of sample_strptime_year]
  obtain rows where td: "transform_data sample_strptime_year (JObj sample_big_fields) = Inr rows"
    and n: "length rows =
             max (dimension_len (dict_get sample_big_fields ''instrumentos'')) 1 *
             max (dimension_len (dict_get sample_big_fields ''tiposBeneficiarios'')) 1 *
             max (dimension_len (dict_get sample_big_fields ''sectores'')) 1 *
             max (dimension_len (dict_get sample_big_fields ''regiones'')) 1"
    by blast
  from n have "length rows = 108"
    by (simp add: sample_big_fields_def dict_get_def dimension_len_def)
  with td show ?thesis
    by (simp add: sample_big_rows_def sample_big_record_def)
qed

lemma sample_big_year:
  "year_of sample_strptime_year (dict_get sample_big_fields ''fechaRecepcion'') = JNum 2024"
  by (simp add: year_of_def dict_get_def sample_big_fields_def sample_year)

text \<open>
  Claim C3 at one input. A scraper that starts with nothing buffered and no file gets a
  record of 108 rows: the counter of rows goes from 0 to 108, over 100, and nothing
  is saved; the 108 rows stay in the DataFrame of 2024 and the loop goes on.
\<close>

theorem periodic_save_missed:
  "run sample_strptime_year [Probe (Response 200 sample_big_record) Map.empty] Map.empty (init 865179 []) =
     (\<lparr>start_bdns = 865179, current_bdns = 865180, consecutive_404s = 0,
       dataframes_by_year = [(2024, sample_big_rows)], total_records = 108, total_requests = 1,
       parquet_files = [], stdout = [Msg_fetched 865179]\<rparr>, Running) \<and>
   length sample_big_rows = 108"
proof -
  have ne: "sample_big_fields \<noteq> []" by (simp add: sample_big_fields_def)
  have td: "transform_data sample_strptime_year (JObj sample_big_fields) = Inr sample_big_rows"
    using transform_big by (simp add: sample_big_record_def)
  have nz: "(2024::int) \<noteq> 0" by simp
  from iteration_record [OF sample_big_well_formed ne td sample_big_year nz, of Map.empty "init 865179 []"]
       transform_big
  show ?thesis
    by (simp add: run_def run_with_def MAX_CONSECUTIVE_404_def sample_big_record_def init_def
        frame_of_def)
qed

section \<open>Properties of the loop that saves every DataFrame\<close>

text \<open>
  One step of the loop, seen from any year \<open>y\<close>: what is left in the DataFrame of \<open>y\<close>,
  what its file holds, and how many calls of the store for \<open>y\<close> the output shows.
\<close>

lemma save_if_not_empty_frame:
  "frame_of (dataframes_by_year (save_if_not_empty faults a s)) y =
     (if y = a \<and> faults y = None then [] else frame_of (dataframes_by_year s) y)"
  by (auto simp: save_if_not_empty_def save_to_parquet_def frame_of_def AList.update_conv'
           split: option.splits)

lemma save_if_not_empty_file:
  "map_of (parquet_files (save_if_not_empty faults a s)) y =
     (if y = a \<and> frame_of (dataframes_by_year s) y \<noteq> []
      then (case faults y of
              None \<Rightarrow> Some (merged (map_of (parquet_files s) y) (frame_of (dataframes_by_year s) y))
            | Some left_behind \<Rightarrow> left_behind)
      else map_of (parquet_files s) y)"
  by (auto simp: save_if_not_empty_def save_to_parquet_def frame_of_def merged_def
                 AList.update_conv' AList.delete_conv' split: option.splits)

lemma save_if_not_empty_flushes:
  "flushes y (stdout (save_if_not_empty faults a s)) =
     flushes y (stdout s) + (if y = a \<and> frame_of (dataframes_by_year s) y \<noteq> [] then 1 else 0)"
  by (auto simp: save_if_not_empty_def save_to_parquet_def frame_of_def flushes_def
           split: option.splits)

lemma fold_save_if_not_empty:
  assumes "distinct ys"
  shows "frame_of (dataframes_by_year (fold (save_if_not_empty faults) ys s)) y =
           (if y \<in> set ys \<and> faults y = None then [] else frame_of (dataframes_by_year s) y) \<and>
         map_of (parquet_files (fold (save_if_not_empty faults) ys s)) y =
           (if y \<in> set ys \<and> frame_of (dataframes_by_year s) y \<noteq> []
            then (case faults y of
                    None \<Rightarrow> Some (merged (map_of (parquet_files s) y)
                                   (frame_of (dataframes_by_year s) y))
                  | Some left_behind \<Rightarrow> left_behind)
            else map_of (parquet_files s) y) \<and>
         flushes y (stdout (fold (save_if_not_empty faults) ys s)) =
           flushes y (stdout s) +
           (if y \<in> set ys \<and> frame_of (dataframes_by_year s) y \<noteq> [] then 1 else 0)"
  using assms
proof (induction ys arbitrary: s)
  case Nil
  show ?case by simp
next
  case (Cons a ys)
  from Cons.prems have a: "a \<notin> set ys" and d: "distinct ys" by simp_all
  note IH = Cons.IH [OF d, of "save_if_not_empty faults a s"]
  show ?case
  proof (cases "y = a")
    case True
    with a IH show ?thesis
      by (auto simp: save_if_not_empty_frame save_if_not_empty_file save_if_not_empty_flushes
               split: option.splits)
  next
    case False
    with IH show ?thesis
      by (auto simp: save_if_not_empty_frame save_if_not_empty_file save_if_not_empty_flushes
               split: option.splits)
  qed
qed

lemma map_of_Some_key:
  "map_of al k = Some v \<Longrightarrow> k \<in> fst ` set al"
  by (metis map_of_eq_None_iff option.distinct(1))

lemma frame_of_keys:
  "frame_of frames y \<noteq> [] \<Longrightarrow> y \<in> set (map fst frames)"
  by (auto simp: frame_of_def split: option.splits dest: map_of_Some_key)

text \<open>The whole loop, for a dict of DataFrames (its keys are distinct).\<close>

lemma save_all_frame:
  assumes "distinct (map fst (dataframes_by_year s))"
  shows "frame_of (dataframes_by_year (save_all faults s)) y =
           (if faults y = None then [] else frame_of (dataframes_by_year s) y)"
proof (cases "frame_of (dataframes_by_year s) y = []")
  case True
  with fold_save_if_not_empty [OF assms, of faults s y] show ?thesis
    by (simp add: save_all_def)
next
  case False
  with fold_save_if_not_empty [OF assms, of faults s y] frame_of_keys [OF False] show ?thesis
    by (simp add: save_all_def)
qed

lemma save_all_file:
  assumes "distinct (map fst (dataframes_by_year s))"
  shows "map_of (parquet_files (save_all faults s)) y =
           (if frame_of (dataframes_by_year s) y \<noteq> []
            then (case faults y of
                    None \<Rightarrow> Some (merged (map_of (parquet_files s) y)
                                   (frame_of (dataframes_by_year s) y))
                  | Some left_behind \<Rightarrow> left_behind)
            else map_of (parquet_files s) y)"
proof (cases "frame_of (dataframes_by_year s) y = []")
  case True
  with fold_save_if_not_empty [OF assms, of faults s y] show ?thesis
    by (simp add: save_all_def)
next
  case False
  with fold_save_if_not_empty [OF assms, of faults s y] frame_of_keys [OF False] show ?thesis
    by (simp add: save_all_def)
qed


text \<open>The keys of the dict stay distinct through every operation of the scraper.\<close>

lemma save_to_parquet_keys:
  "map fst (dataframes_by_year (save_to_parquet faults year s)) = map fst (dataframes_by_year s)"
  by (auto simp: save_to_parquet_def AList.update_keys
           split: option.splits dest: map_of_Some_key)

lemma fold_save_keys:
  "map fst (dataframes_by_year (fold (save_if_not_empty faults) ys s)) =
     map fst (dataframes_by_year s)"
  by (induction ys arbitrary: s) (simp_all add: save_if_not_empty_def save_to_parquet_keys)

lemma save_all_keys:
  "map fst (dataframes_by_year (save_all faults s)) = map fst (dataframes_by_year s)"
  by (simp add: save_all_def fold_save_keys)







section \<open>Properties of the store: a save that fails\<close>

lemma fold_save_stdout_mono:
  "set (stdout s) \<subseteq> set (stdout (fold (save_if_not_empty faults) ys s))"
proof (induction ys arbitrary: s)
  case Nil
  show ?case by simp
next
  case (Cons a ys)
  have "set (stdout s) \<subseteq> set (stdout (save_if_not_empty faults a s))"
    by (auto simp: save_if_not_empty_def save_to_parquet_def split: option.splits)
  with Cons.IH [of "save_if_not_empty faults a s"] show ?case by auto
qed

lemma fold_save_error_logged:
  assumes "year \<in> set ys" "faults year = Some left_behind"
    and "frame_of (dataframes_by_year s) year \<noteq> []"
  shows "Msg_save_error year \<in> set (stdout (fold (save_if_not_empty faults) ys s))"
  using assms
proof (induction ys arbitrary: s)
  case Nil
  then show ?case by simp
next
  case (Cons a ys)
  show ?case
  proof (cases "a = year")
    case True
    with Cons.prems have "Msg_save_error year \<in> set (stdout (save_if_not_empty faults a s))"
      by (auto simp: save_if_not_empty_def save_to_parquet_def frame_of_def split: option.splits)
    with fold_save_stdout_mono [of "save_if_not_empty faults a s" faults ys] show ?thesis
      by auto
  next
    case False
    with Cons.prems have y: "year \<in> set ys" by simp
    from Cons.prems have "frame_of (dataframes_by_year (save_if_not_empty faults a s)) year \<noteq> []"
      by (simp add: save_if_not_empty_frame)
    from Cons.IH [OF y Cons.prems(2) this] show ?thesis by simp
  qed
qed

lemma save_all_error_logged:
  assumes "faults year = Some left_behind" "frame_of (dataframes_by_year s) year \<noteq> []"
  shows "Msg_save_error year \<in> set (stdout (save_all faults s))"
  using fold_save_error_logged [where faults = faults, OF frame_of_keys [OF assms(2)] assms]
  by (simp add: save_all_def)

text \<open>The exception that leaves a turn of the loop, and the cursor, do not depend on the files.\<close>

lemma iteration_faults:
  "snd (iteration strptime_year faults rep s) = snd (iteration strptime_year Map.empty rep s) \<and>
   current_bdns (fst (iteration strptime_year faults rep s)) =
     current_bdns (fst (iteration strptime_year Map.empty rep s))"
  by (simp add: iteration_def Let_def split: prod.splits option.splits sum.splits)

text \<open>What the merge writes holds the rows of the DataFrame, up to its deduplication.\<close>

lemma merged_last_row:
  assumes "r \<in> set df"
  shows "filter (\<lambda>r'. codigo r' = codigo r) (merged (Some existing_df) df) =
           [last (filter (\<lambda>r'. codigo r' = codigo r) df)]"
proof -
  from assms have ne: "filter (\<lambda>r'. codigo r' = codigo r) df \<noteq> []"
    by (auto simp: filter_empty_conv)
  from assms have "codigo r \<in> codigo ` set (existing_df @ df)" by simp
  then show ?thesis
    using ne by (simp add: merged_def filter_codigo_drop_duplicates_last del: set_append)
qed

lemma persisted_merged: "persisted df (Some (merged existing df))"
proof -
  have "last (filter (\<lambda>r'. codigo r' = codigo r) df) \<in> set (merged existing df)"
    if r: "r \<in> set df" for r
  proof (cases existing)
    case None
    from r have "filter (\<lambda>r'. codigo r' = codigo r) df \<noteq> []"
      by (auto simp: filter_empty_conv)
    then have "last (filter (\<lambda>r'. codigo r' = codigo r) df) \<in> set (filter (\<lambda>r'. codigo r' = codigo r) df)"
      by (rule last_in_set)
    with None show ?thesis by (simp add: merged_def)
  next
    case (Some existing_df)
    have "last (filter (\<lambda>r'. codigo r' = codigo r) df) \<in>
            set (filter (\<lambda>r'. codigo r' = codigo r) (merged (Some existing_df) df))"
      unfolding merged_last_row [OF r] by simp
    with Some show ?thesis by simp
  qed
  then show ?thesis by (simp add: persisted_def list_all_iff)
qed

text \<open>The \<open>finally\<close> block is the loop that saves every DataFrame.\<close>

lemma finally_block_frame:
  assumes "distinct (map fst (dataframes_by_year s))"
  shows "frame_of (dataframes_by_year (finally_block faults r s)) y =
           (if faults y = None then [] else frame_of (dataframes_by_year s) y)"
  using assms by (simp add: finally_block_def save_all_frame)

lemma finally_block_file:
  assumes "distinct (map fst (dataframes_by_year s))"
  shows "map_of (parquet_files (finally_block faults r s)) y =
           (if frame_of (dataframes_by_year s) y \<noteq> []
            then (case faults y of
                    None \<Rightarrow> Some (merged (map_of (parquet_files s) y)
                                   (frame_of (dataframes_by_year s) y))
                  | Some left_behind \<Rightarrow> left_behind)
            else map_of (parquet_files s) y)"
  using assms by (simp add: finally_block_def save_all_file split: option.splits)


text \<open>
  Claim C6, as the code has it. The file of a year fails during the loop that saves
  every DataFrame, while that year has rows buffered. Then the error is printed and
  the rows of that year are still in its DataFrame, which is emptied only after a
  write that succeeds; the DataFrames of the years that do not fail are saved and
  emptied. The rows that were kept are given to the store again by the next run of
  that loop, be it the periodic save or the \<open>finally\<close> block: if the file does not fail
  then, the DataFrame is emptied and the file holds its rows (up to the deduplication
  of the merge); if it fails again, the rows are still only in memory, and after the
  \<open>finally\<close> block nothing else saves them. A turn of the driver's loop ends the same
  way, and moves the cursor the same way, whether files fail or not.
\<close>

theorem save_failure_keeps_rows:
  assumes "distinct (map fst (dataframes_by_year s))"
    and "faults year = Some left_behind"
    and "frame_of (dataframes_by_year s) year \<noteq> []"
  shows "Msg_save_error year \<in> set (stdout (save_all faults s)) \<and>
         frame_of (dataframes_by_year (save_all faults s)) year =
           frame_of (dataframes_by_year s) year \<and>
         map_of (parquet_files (save_all faults s)) year = left_behind \<and>
         (\<forall>y. faults y = None \<and> frame_of (dataframes_by_year s) y \<noteq> [] \<longrightarrow>
            frame_of (dataframes_by_year (save_all faults s)) y = [] \<and>
            map_of (parquet_files (save_all faults s)) y =
              Some (merged (map_of (parquet_files s) y) (frame_of (dataframes_by_year s) y))) \<and>
         frame_of (dataframes_by_year (save_all later (save_all faults s))) year =
           (if later year = None then [] else frame_of (dataframes_by_year s) year) \<and>
         map_of (parquet_files (save_all later (save_all faults s))) year =
           (case later year of
              None \<Rightarrow> Some (merged left_behind (frame_of (dataframes_by_year s) year))
            | Some left_again \<Rightarrow> left_again) \<and>
         frame_of (dataframes_by_year (finally_block later r (save_all faults s))) year =
           (if later year = None then [] else frame_of (dataframes_by_year s) year) \<and>
         map_of (parquet_files (finally_block later r (save_all faults s))) year =
           (case later year of
              None \<Rightarrow> Some (merged left_behind (frame_of (dataframes_by_year s) year))
            | Some left_again \<Rightarrow> left_again) \<and>
         (later year = None \<longrightarrow>
            persisted (frame_of (dataframes_by_year s) year)
              (map_of (parquet_files (save_all later (save_all faults s))) year) \<and>
            persisted (frame_of (dataframes_by_year s) year)
              (map_of (parquet_files (finally_block later r (save_all faults s))) year)) \<and>
         snd (iteration strptime_year faults rep s0) =
           snd (iteration strptime_year Map.empty rep s0) \<and>
         current_bdns (fst (iteration strptime_year faults rep s0)) =
           current_bdns (fst (iteration strptime_year Map.empty rep s0))"
proof -
  have d: "distinct (map fst (dataframes_by_year (save_all faults s)))"
    using assms(1) by (simp add: save_all_keys)
  have fr: "frame_of (dataframes_by_year (save_all faults s)) year =
              frame_of (dataframes_by_year s) year"
    using assms(2) by (simp add: save_all_frame [OF assms(1)])
  have fi: "map_of (parquet_files (save_all faults s)) year = left_behind"
    using assms(2,3) by (simp add: save_all_file [OF assms(1)])
  have others: "\<forall>y. faults y = None \<and> frame_of (dataframes_by_year s) y \<noteq> [] \<longrightarrow>
            frame_of (dataframes_by_year (save_all faults s)) y = [] \<and>
            map_of (parquet_files (save_all faults s)) y =
              Some (merged (map_of (parquet_files s) y) (frame_of (dataframes_by_year s) y))"
    by (simp add: save_all_frame [OF assms(1)] save_all_file [OF assms(1)])
  have fr2: "frame_of (dataframes_by_year (save_all later (save_all faults s))) year =
           (if later year = None then [] else frame_of (dataframes_by_year s) year)"
    by (simp add: save_all_frame [OF d] fr)
  have fi2: "map_of (parquet_files (save_all later (save_all faults s))) year =
           (case later year of
              None \<Rightarrow> Some (merged left_behind (frame_of (dataframes_by_year s) year))
            | Some left_again \<Rightarrow> left_again)"
    using assms(3) by (simp add: save_all_file [OF d] fr fi split: option.splits)
  have fr3: "frame_of (dataframes_by_year (finally_block later r (save_all faults s))) year =
           (if later year = None then [] else frame_of (dataframes_by_year s) year)"
    by (simp add: finally_block_frame [OF d] fr)
  have fi3: "map_of (parquet_files (finally_block later r (save_all faults s))) year =
           (case later year of
              None \<Rightarrow> Some (merged left_behind (frame_of (dataframes_by_year s) year))
            | Some left_again \<Rightarrow> left_again)"
    using assms(3) by (simp add: finally_block_file [OF d] fr fi split: option.splits)
  have p: "later year = None \<longrightarrow>
            persisted (frame_of (dataframes_by_year s) year)
              (map_of (parquet_files (save_all later (save_all faults s))) year) \<and>
            persisted (frame_of (dataframes_by_year s) year)
              (map_of (parquet_files (finally_block later r (save_all faults s))) year)"
    by (simp add: fi2 fi3 persisted_merged)
  from save_all_error_logged [where faults = faults, OF assms(2,3)] fr fi others fr2 fi2 fr3 fi3 p
       iteration_faults [of strptime_year faults rep s0]
  show ?thesis by blast
qed

lemma sample_hundred_well_formed: "well_formed_record sample_hundred_fields"
  by (simp add: well_formed_record_def sample_hundred_fields_def dict_get_default_def dict_get_def
      dimension_ok_def described_def)

lemma transform_hundred:
  "transform_data sample_strptime_year sample_hundred_record = Inr sample_hundred_rows \<and>
   length sample_hundred_rows = 100"
proof -
  from transform_data_length [OF sample_hundred_well_formed, of sample_strptime_year]
  obtain rows where td: "transform_data sample_strptime_year (JObj sample_hundred_fields) = Inr rows"
    and n: "length rows =
             max (dimension_len (dict_get sample_hundred_fields ''instrumentos'')) 1 *
             max (dimension_len (dict_get sample_hundred_fields ''tiposBeneficiarios'')) 1 *
             max (dimension_len (dict_get sample_hundred_fields ''sectores'')) 1 *
             max (dimension_len (dict_get sample_hundred_fields ''regiones'')) 1"
    by blast
  from n have "length rows = 100"
    by (simp add: sample_hundred_fields_def dict_get_def dimension_len_def)
  with td show ?thesis
    by (simp add: sample_hundred_rows_def sample_hundred_record_def)
qed

lemma sample_hundred_year:
  "year_of sample_strptime_year (dict_get sample_hundred_fields ''fechaRecepcion'') = JNum 2024"
  by (simp add: year_of_def dict_get_def sample_hundred_fields_def sample_year)

text \<open>
  The file of 2024 fails, and is left as it was, while rows of 2024 and of 2023 are
  buffered: the error is printed, the two rows of 2024 stay in their DataFrame and the
  row of 2023 is saved. A \<open>finally\<close> block that meets no error then writes the rows of
  2024; one in which the file fails again leaves them in memory.
\<close>

theorem save_failure_keeps_rows_witness:
  "distinct (map fst (dataframes_by_year sample_two_year_state)) \<and>
   sample_fault_same_file 2024 = Some (Some [sample_row_other]) \<and>
   frame_of (dataframes_by_year sample_two_year_state) 2024 = [sample_row_a, sample_row_b] \<and>
   Msg_save_error 2024 \<in> set (stdout (save_all sample_fault_same_file sample_two_year_state)) \<and>
   frame_of (dataframes_by_year (save_all sample_fault_same_file sample_two_year_state)) 2024 =
     [sample_row_a, sample_row_b] \<and>
   frame_of (dataframes_by_year (save_all sample_fault_same_file sample_two_year_state)) 2023 = [] \<and>
   map_of (parquet_files (save_all sample_fault_same_file sample_two_year_state)) 2023 =
     Some [sample_row_2023] \<and>
   map_of (parquet_files (finally_block Map.empty UserCancelled
             (save_all sample_fault_same_file sample_two_year_state))) 2024 =
     Some [sample_row_other, sample_row_b] \<and>
   frame_of (dataframes_by_year (finally_block Map.empty UserCancelled
             (save_all sample_fault_same_file sample_two_year_state))) 2024 = [] \<and>
   frame_of (dataframes_by_year (finally_block sample_fault_same_file UserCancelled
             (save_all sample_fault_same_file sample_two_year_state))) 2024 =
     [sample_row_a, sample_row_b] \<and>
   map_of (parquet_files (finally_block sample_fault_same_file UserCancelled
             (save_all sample_fault_same_file sample_two_year_state))) 2024 =
     Some [sample_row_other]"
proof -
  let ?s = sample_two_year_state
  let ?f = sample_fault_same_file
  have d: "distinct (map fst (dataframes_by_year ?s))"
    by (simp add: sample_two_year_state_def)
  have f: "?f 2024 = Some (Some [sample_row_other])" and f23: "?f 2023 = None"
    by (simp_all add: sample_fault_same_file_def)
  have b: "frame_of (dataframes_by_year ?s) 2024 = [sample_row_a, sample_row_b]"
    by (simp add: sample_two_year_state_def frame_of_def)
  then have ne: "frame_of (dataframes_by_year ?s) 2024 \<noteq> []" by simp
  have b23: "frame_of (dataframes_by_year ?s) 2023 = [sample_row_2023]"
    by (simp add: sample_two_year_state_def frame_of_def)
  have f23': "map_of (parquet_files ?s) 2023 = None"
    by (simp add: sample_two_year_state_def init_def)
  have m: "merged (Some [sample_row_other]) [sample_row_a, sample_row_b] =
             [sample_row_other, sample_row_b]"
    by (simp add: merged_def codigo_def dict_get_def sample_row_a_def sample_row_b_def
        sample_row_other_def)
  note ok = save_failure_keeps_rows [where faults = "?f" and later = Map.empty
      and strptime_year = sample_strptime_year and rep = RequestException and ?s0.0 = "?s"
      and r = UserCancelled, OF d f ne]
  note again = save_failure_keeps_rows [where faults = "?f" and later = "?f"
      and strptime_year = sample_strptime_year and rep = RequestException and ?s0.0 = "?s"
      and r = UserCancelled, OF d f ne]
  from ok have 1: "Msg_save_error 2024 \<in> set (stdout (save_all ?f ?s))"
    and 2: "frame_of (dataframes_by_year (save_all ?f ?s)) 2024 =
              frame_of (dataframes_by_year ?s) 2024"
    and o: "\<forall>y. ?f y = None \<and> frame_of (dataframes_by_year ?s) y \<noteq> [] \<longrightarrow>
            frame_of (dataframes_by_year (save_all ?f ?s)) y = [] \<and>
            map_of (parquet_files (save_all ?f ?s)) y =
              Some (merged (map_of (parquet_files ?s) y) (frame_of (dataframes_by_year ?s) y))"
    and 3: "frame_of (dataframes_by_year (finally_block Map.empty UserCancelled (save_all ?f ?s)))
              2024 = []"
    and 4: "map_of (parquet_files (finally_block Map.empty UserCancelled (save_all ?f ?s))) 2024 =
              Some (merged (Some [sample_row_other]) (frame_of (dataframes_by_year ?s) 2024))"
    by simp_all
  from again f have 5: "frame_of (dataframes_by_year (finally_block ?f UserCancelled (save_all ?f ?s)))
              2024 = frame_of (dataframes_by_year ?s) 2024"
    and 6: "map_of (parquet_files (finally_block ?f UserCancelled (save_all ?f ?s))) 2024 =
              Some [sample_row_other]"
    by simp_all
  from o b23 f23 f23'
  have 7: "frame_of (dataframes_by_year (save_all ?f ?s)) 2023 = [] \<and>
        map_of (parquet_files (save_all ?f ?s)) 2023 = Some [sample_row_2023]"
    by (simp add: merged_def)
  from d f b 1 2 3 4 5 6 7 m show ?thesis by simp
qed

text \<open>
  The claim as worded fails on this run. The record of 100 rows is buffered by a
  scraper with no file, the periodic save is due and the file of 2024 fails: the
  error is printed and the 100 rows stay in the DataFrame. The user then interrupts,
  and the \<open>finally\<close> block saves the 100 rows: the data of the save that failed is not
  lost.
\<close>

theorem save_failure_keeps_rows_counterexample:
  "loop sample_strptime_year MAX_CONSECUTIVE_404
     [Probe (Response 200 sample_hundred_record) sample_fault_no_file] (init 865179 []) =
     (\<lparr>start_bdns = 865179, current_bdns = 865180, consecutive_404s = 0,
       dataframes_by_year = [(2024, sample_hundred_rows)], total_records = 100,
       total_requests = 1, parquet_files = [],
       stdout = [Msg_fetched 865179, Msg_save_error 2024]\<rparr>, Running) \<and>
   run sample_strptime_year sample_failed_save_run Map.empty (init 865179 []) =
     (\<lparr>start_bdns = 865179, current_bdns = 865180, consecutive_404s = 0,
       dataframes_by_year = [(2024, [])], total_records = 100, total_requests = 1,
       parquet_files = [(2024, sample_hundred_rows)],
       stdout = [Msg_fetched 865179, Msg_save_error 2024, Msg_interrupted, Msg_saved 100 2024]\<rparr>,
      Stopped UserCancelled) \<and>
   length sample_hundred_rows = 100"
proof -
  have ne: "sample_hundred_fields \<noteq> []" by (simp add: sample_hundred_fields_def)
  have td: "transform_data sample_strptime_year (JObj sample_hundred_fields) = Inr sample_hundred_rows"
    using transform_hundred by (simp add: sample_hundred_record_def)
  have nz: "(2024::int) \<noteq> 0" by simp
  have len: "length sample_hundred_rows = 100" using transform_hundred by simp
  then have rows: "sample_hundred_rows \<noteq> []" by auto
  have it: "iteration sample_strptime_year sample_fault_no_file
              (Response 200 sample_hundred_record) (init 865179 []) =
     (\<lparr>start_bdns = 865179, current_bdns = 865180, consecutive_404s = 0,
       dataframes_by_year = [(2024, sample_hundred_rows)], total_records = 100,
       total_requests = 1, parquet_files = [],
       stdout = [Msg_fetched 865179, Msg_save_error 2024]\<rparr>, None)"
    using iteration_record [OF sample_hundred_well_formed ne td sample_hundred_year nz,
            of sample_fault_no_file "init 865179 []"] len rows
    by (simp add: sample_hundred_record_def init_def frame_of_def save_all_def
        save_if_not_empty_def save_to_parquet_def sample_fault_no_file_def)
  have c0: "consecutive_404s (init 865179 []) = 0" by (simp add: init_def)
  from it rows len c0 show ?thesis
    by (simp add: run_def run_with_def MAX_CONSECUTIVE_404_def sample_failed_save_run_def
        finally_block_def save_all_def save_if_not_empty_def save_to_parquet_def frame_of_def)
qed

section \<open>Properties of the driver: the final save\<close>






end
